theory Spec2Isabelle
  imports Complex_Main "HOL-Library.Multiset"
begin

section \<open>The predictor service: data model\<close>

text \<open>
  The service \<^verbatim>\<open>src/predictor/main.py\<close> pulls a CPU usage series and a CPU limit from
  Prometheus, builds a lagged supervised dataset, fits a Lasso model and publishes the
  clamped one-step forecast as a gauge.

  Modelling conventions.
  \<^item> Python floats are modelled as \<^typ>\<open>real\<close> (finite and exact). The only NaN the
    pipeline creates itself is the pandas marker of a missing cell; a cell is a
    \<^typ>\<open>real option\<close> and \<^term>\<open>None\<close> is that marker.
  \<^item> A pandas Series is its list of cells in index order; where the index matters (the
    resampled usage series) the cell is paired with its index label, in seconds.
  \<^item> A DataFrame of features is the list of its rows; a row is the list of its columns
    \<^verbatim>\<open>lag_1 .. lag_L\<close> in that order.
  \<^item> The two Prometheus helpers \<^verbatim>\<open>prom_range\<close> and \<^verbatim>\<open>prom_query\<close> are network
    calls; their answers are inputs of an iteration, \<^term>\<open>Inl e\<close> when the helper raises.
  \<^item> The coordinate-descent optimiser behind \<^verbatim>\<open>Lasso.fit\<close> is a parameter \<open>fit\<close> of the
    iteration; the fitted model is its coefficients and intercept, and prediction is the
    linear form scikit-learn evaluates.
\<close>

datatype error = TransportError | KeyError | ValueError | IndexError

type_synonym cell = "real option"

text \<open>A point of the flattened range answer: \<^verbatim>\<open>(float(v[0]), float(v[1]))\<close>.\<close>

type_synonym point = "real \<times> real"

text \<open>An index label (seconds since the epoch) with its cell.\<close>

type_synonym series = "(real \<times> cell) list"

text \<open>The module-level configuration read from the environment.\<close>

record config =
  NAMESPACE :: string
  DEPLOY :: string
  LAGS :: int
  INTERVAL :: int

text \<open>The gauge \<^verbatim>\<open>G\<close>: one value per \<^verbatim>\<open>deployment\<close> label, overwritten by \<^verbatim>\<open>set\<close>.\<close>

type_synonym gauge = "string \<rightharpoonup> real"

definition gauge_set :: "gauge \<Rightarrow> string \<Rightarrow> real \<Rightarrow> gauge" where
  "gauge_set G label v = G(label \<mapsto> v)"

text \<open>What \<^verbatim>\<open>/metrics\<close> renders for one label: the stored sample, if there is one.\<close>

definition metrics :: "gauge \<Rightarrow> string \<Rightarrow> real option" where
  "metrics G label = G label"

section \<open>Series normalisation\<close>

text \<open>\<^verbatim>\<open>pd.DataFrame(points, columns=["ts", "val"]).sort_values("ts")\<close>: the rows ordered by
  the \<^verbatim>\<open>ts\<close> column. Rows with equal \<^verbatim>\<open>ts\<close> are kept, all of them; their relative order
  does not reach the result, since the bucket mean below does not depend on it.\<close>

definition sort_values :: "point list \<Rightarrow> point list" where
  "sort_values points = sort_key fst points"

text \<open>The 5 second bucket of a timestamp: buckets are left-closed and anchored at midnight,
  hence at the multiples of 5 seconds.\<close>

definition bucket :: "real \<Rightarrow> int" where
  "bucket t = \<lfloor>t / 5\<rfloor>"

definition bucket_label :: "int \<Rightarrow> real" where
  "bucket_label b = 5 * of_int b"

text \<open>\<^verbatim>\<open>.mean()\<close> of one bucket: the mean of the values in it, missing when it has none.\<close>

definition mean :: "real list \<Rightarrow> real" where
  "mean xs = sum_list xs / of_nat (length xs)"

definition bucket_mean :: "real list \<Rightarrow> cell" where
  "bucket_mean vs = (if vs = [] then None else Some (mean vs))"

text \<open>\<^verbatim>\<open>s.resample("5s").mean()\<close>: one row for every bucket from the bucket of the earliest
  timestamp to the bucket of the latest one, labelled by the left edge of the bucket.\<close>

definition resample_mean :: "point list \<Rightarrow> series" where
  "resample_mean df =
     (if df = [] then []
      else let lo = bucket (fst (hd df));
               hi = bucket (fst (last df))
           in map (\<lambda>k. let b = lo + int k
                        in (bucket_label b,
                            bucket_mean (map snd (filter (\<lambda>p. bucket (fst p) = b) df))))
                  [0 ..< Suc (nat (hi - lo))])"

text \<open>\<^verbatim>\<open>.ffill()\<close> carries the last seen value forward over missing cells.\<close>

fun ffill_from :: "'a option \<Rightarrow> 'a option list \<Rightarrow> 'a option list" where
  "ffill_from prev [] = []"
| "ffill_from prev (None # cs) = prev # ffill_from prev cs"
| "ffill_from prev (Some v # cs) = Some v # ffill_from (Some v) cs"

definition ffill :: "'a option list \<Rightarrow> 'a option list" where
  "ffill cs = ffill_from None cs"

text \<open>\<^verbatim>\<open>.bfill()\<close> carries the next seen value backward.\<close>

definition bfill :: "'a option list \<Rightarrow> 'a option list" where
  "bfill cs = rev (ffill (rev cs))"

text \<open>Lines 157 to 164 of the loop: sort, resample, fill; \<^verbatim>\<open>s.tail(len(s))\<close> is all of
  \<^verbatim>\<open>s\<close>.\<close>

definition normalize :: "point list \<Rightarrow> series" where
  "normalize points =
     (let df = sort_values points;
          s = resample_mean df
      in zip (map fst s) (bfill (ffill (map snd s))))"

section \<open>The CPU limit and the utilisation series\<close>

text \<open>\<^verbatim>\<open>limit = float(result[0]["value"][1]) if result else 0.1\<close>, then the guard
  \<^verbatim>\<open>if limit <= 0: limit = 0.1\<close>. The argument is the list of the sample values of the
  instant answer, one for each entry of \<^verbatim>\<open>jl["data"]["result"]\<close>.\<close>

definition cpu_limit :: "real list \<Rightarrow> real" where
  "cpu_limit result =
     (let limit = (case result of [] \<Rightarrow> 1 / 10 | v # _ \<Rightarrow> v)
      in if limit \<le> 0 then 1 / 10 else limit)"

text \<open>\<^verbatim>\<open>util = s / limit\<close>, cell by cell; a missing cell stays missing.\<close>

definition utilization :: "series \<Rightarrow> real \<Rightarrow> cell list" where
  "utilization s limit = map (map_option (\<lambda>v. v / limit)) (map snd s)"

section \<open>Feature engineering\<close>

text \<open>Python's \<^verbatim>\<open>range(a, b)\<close> on natural numbers.\<close>

definition py_range :: "nat \<Rightarrow> nat \<Rightarrow> nat list" where
  "py_range a b = [a ..< b]"

text \<open>\<^verbatim>\<open>ts.shift(i)\<close> for \<open>i \<ge> 0\<close>: the values move \<open>i\<close> places down, the first \<open>i\<close> cells
  become missing, the length stays.\<close>

definition shift :: "cell list \<Rightarrow> nat \<Rightarrow> cell list" where
  "shift ts i = replicate (min i (length ts)) None @ take (length ts - i) ts"

text \<open>\<^verbatim>\<open>.dropna()\<close> on the frame of the lag columns and \<^verbatim>\<open>y\<close>: a row stays when none of its
  cells is missing.\<close>

definition keep_row :: "cell list \<times> cell \<Rightarrow> (real list \<times> real) option" where
  "keep_row row =
     (case row of (fs, t) \<Rightarrow>
        (case (those fs, t) of (Some xs, Some v) \<Rightarrow> Some (xs, v) | _ \<Rightarrow> None))"

definition dropna :: "(cell list \<times> cell) list \<Rightarrow> (real list \<times> real) list" where
  "dropna rows = List.map_filter keep_row rows"

text \<open>The frame \<^verbatim>\<open>X\<close> of \<^verbatim>\<open>make_supervised\<close>, column by column: \<^verbatim>\<open>lag_i = ts.shift(i)\<close> for
  \<open>i\<close> in \<^verbatim>\<open>range(1, lags + 1)\<close>.\<close>

definition lag_columns :: "cell list \<Rightarrow> nat \<Rightarrow> cell list list" where
  "lag_columns ts lags = map (\<lambda>i. shift ts i) (py_range 1 (lags + 1))"

text \<open>Row \<open>r\<close> of a frame given by its columns.\<close>

definition frame_row :: "cell list list \<Rightarrow> nat \<Rightarrow> cell list" where
  "frame_row cols r = map (\<lambda>c. c ! r) cols"

text \<open>\<^verbatim>\<open>make_supervised(ts, lags)\<close>. All lag columns and \<^verbatim>\<open>y\<close> carry the index of \<^verbatim>\<open>ts\<close>, so
  the concatenation along axis 1 puts them side by side row by row. The lag count is a
  natural number here: \<^verbatim>\<open>range(1, lags + 1)\<close> is empty for every \<open>lags \<le> 0\<close>.\<close>

definition make_supervised :: "cell list \<Rightarrow> nat \<Rightarrow> real list list \<times> real list" where
  "make_supervised ts lags =
     (let X = lag_columns ts lags;
          y = ts;
          df = dropna (map (\<lambda>r. (frame_row X r, y ! r)) [0 ..< length ts])
      in (map fst df, map snd df))"

section \<open>Scaling, splitting, the linear model\<close>

text \<open>The state of a fitted \<^verbatim>\<open>StandardScaler\<close>: one mean and one scale for every feature
  column.\<close>

record standard_scaler =
  scaler_mean :: "real list"
  scaler_scale :: "real list"

definition n_features :: "real list list \<Rightarrow> nat" where
  "n_features X = (case X of [] \<Rightarrow> 0 | r # _ \<Rightarrow> length r)"

definition column :: "real list list \<Rightarrow> nat \<Rightarrow> real list" where
  "column X j = map (\<lambda>r. r ! j) X"

text \<open>The population variance (\<^verbatim>\<open>ddof = 0\<close>), as \<^verbatim>\<open>StandardScaler\<close> computes it.\<close>

definition variance :: "real list \<Rightarrow> real" where
  "variance xs = mean (map (\<lambda>x. (x - mean xs)\<^sup>2) xs)"

text \<open>A constant column has standard deviation 0; its scale is set to 1.\<close>

definition handle_zeros_in_scale :: "real \<Rightarrow> real" where
  "handle_zeros_in_scale s = (if s = 0 then 1 else s)"

text \<open>The per-feature statistics \<^verbatim>\<open>scaler.fit(X)\<close> stores: the mean of every column, and
  its standard deviation as the scale.\<close>

definition column_means :: "real list list \<Rightarrow> real list" where
  "column_means X = map (\<lambda>j. mean (column X j)) [0 ..< n_features X]"

definition column_scales :: "real list list \<Rightarrow> real list" where
  "column_scales X =
     map (\<lambda>j. handle_zeros_in_scale (sqrt (variance (column X j)))) [0 ..< n_features X]"

text \<open>\<^verbatim>\<open>scaler.fit(X)\<close>. The input validation of scikit-learn rejects a matrix with no row
  or with no column.\<close>

definition scaler_fit :: "real list list \<Rightarrow> error + standard_scaler" where
  "scaler_fit X =
     (if X = [] \<or> n_features X = 0 then Inl ValueError
      else Inr \<lparr> scaler_mean = column_means X, scaler_scale = column_scales X \<rparr>)"

definition scale_value :: "real \<times> real \<times> real \<Rightarrow> real" where
  "scale_value xms = (case xms of (x, m, s) \<Rightarrow> (x - m) / s)"

text \<open>\<^verbatim>\<open>scaler.transform(X)\<close> on a matrix without missing cells.\<close>

definition scaler_transform :: "standard_scaler \<Rightarrow> real list list \<Rightarrow> real list list" where
  "scaler_transform sc X =
     map (\<lambda>r. map scale_value (zip r (zip (scaler_mean sc) (scaler_scale sc)))) X"

text \<open>\<^verbatim>\<open>scaler.transform\<close> on the one-row frame \<^verbatim>\<open>x_last_raw\<close>, whose cells come straight
  from the utilisation series; a missing cell passes through.\<close>

definition scaler_transform_row :: "standard_scaler \<Rightarrow> cell list \<Rightarrow> cell list" where
  "scaler_transform_row sc r =
     map (\<lambda>(c, m, s). map_option (\<lambda>x. scale_value (x, m, s)) c)
         (zip r (zip (scaler_mean sc) (scaler_scale sc)))"

text \<open>\<^verbatim>\<open>scaler.fit_transform(X)\<close>.\<close>

definition fit_transform :: "real list list \<Rightarrow> error + standard_scaler \<times> real list list" where
  "fit_transform X =
     (case scaler_fit X of
        Inl e \<Rightarrow> Inl e
      | Inr sc \<Rightarrow> Inr (sc, scaler_transform sc X))"

text \<open>\<^verbatim>\<open>train_test_split(Xs, y, test_size=0.2, shuffle=False)\<close>: scikit-learn takes
  \<open>n_test = ceil(0.2 * n)\<close> and \<open>n_train = n - n_test\<close>, refuses an empty training set, and
  without shuffling returns the rows \<open>0 ..< n_train\<close> and \<open>n_train ..< n_train + n_test\<close>.\<close>

definition n_test_of :: "nat \<Rightarrow> nat" where
  "n_test_of n = nat \<lceil>0.2 * real n\<rceil>"

definition train_test_split ::
  "'a list \<Rightarrow> 'b list \<Rightarrow> error + ('a list \<times> 'a list \<times> 'b list \<times> 'b list)" where
  "train_test_split Xs y =
     (let n_samples = length Xs;
          n_test = n_test_of n_samples;
          n_train = n_samples - n_test
      in if n_train = 0 then Inl ValueError
         else Inr (take n_train Xs, take n_test (drop n_train Xs),
                   take n_train y, take n_test (drop n_train y)))"

text \<open>A fitted \<^verbatim>\<open>Lasso\<close> is a linear model; \<^verbatim>\<open>predict\<close> evaluates it on one row.\<close>

record lasso =
  coef :: "real list"
  intercept :: real

definition predict :: "lasso \<Rightarrow> real list \<Rightarrow> real" where
  "predict m x = sum_list (map (\<lambda>(a, b). a * b) (zip x (coef m))) + intercept m"

type_synonym fitter = "real list list \<Rightarrow> real list \<Rightarrow> lasso"

text \<open>\<^verbatim>\<open>[util.iloc[-i] for i in range(1, LAGS + 1)]\<close>, transposed into one row: column
  \<open>i - 1\<close> holds the cell \<open>i\<close> places from the end. \<^verbatim>\<open>iloc\<close> raises when \<open>i\<close> exceeds the
  length of the series.\<close>

definition iloc_neg :: "'a list \<Rightarrow> nat \<Rightarrow> error + 'a" where
  "iloc_neg xs i = (if i \<le> length xs then Inr (xs ! (length xs - i)) else Inl IndexError)"

fun collect :: "(error + 'a) list \<Rightarrow> error + 'a list" where
  "collect [] = Inr []"
| "collect (Inl e # rs) = Inl e"
| "collect (Inr v # rs) = (case collect rs of Inl e \<Rightarrow> Inl e | Inr vs \<Rightarrow> Inr (v # vs))"

definition latest_window :: "cell list \<Rightarrow> nat \<Rightarrow> error + cell list" where
  "latest_window util lags = collect (map (\<lambda>i. iloc_neg util i) (py_range 1 (lags + 1)))"

text \<open>Python's \<^verbatim>\<open>max(0.0, min(yhat, 2.0))\<close>.\<close>

definition clamp :: "real \<Rightarrow> real" where
  "clamp yhat = max 0 (min yhat 2)"

section \<open>One iteration of the loop\<close>

text \<open>The values the model-fitting branch computes, under the names the source gives
  them; \<open>yhat\<close> is the prediction before it is clamped.\<close>

record fit_trace =
  scaler :: standard_scaler
  Xs :: "real list list"
  Xtr :: "real list list"
  Xte :: "real list list"
  ytr :: "real list"
  yte :: "real list"
  model :: lasso
  x_last_raw :: "cell list"
  x_last :: "cell list"
  yhat :: real

text \<open>Lines 192 to 215: scale, split, fit, build the latest window, predict. The
  prediction refuses a row with a missing cell.\<close>

definition forecast ::
  "fitter \<Rightarrow> real list list \<Rightarrow> real list \<Rightarrow> cell list \<Rightarrow> nat \<Rightarrow> error + fit_trace" where
  "forecast fit X y util lags =
     (case fit_transform X of
        Inl e \<Rightarrow> Inl e
      | Inr (sc, Xs') \<Rightarrow>
          (case train_test_split Xs' y of
             Inl e \<Rightarrow> Inl e
           | Inr (Xtr', Xte', ytr', yte') \<Rightarrow>
               (let m = fit Xtr' ytr'
                in case latest_window util lags of
                     Inl e \<Rightarrow> Inl e
                   | Inr raw \<Rightarrow>
                       (let xl = scaler_transform_row sc raw
                        in case those xl of
                             None \<Rightarrow> Inl ValueError
                           | Some row \<Rightarrow>
                               Inr \<lparr> scaler = sc, Xs = Xs', Xtr = Xtr', Xte = Xte',
                                     ytr = ytr', yte = yte', model = m,
                                     x_last_raw = raw, x_last = xl,
                                     yhat = predict m row \<rparr>))))"

text \<open>How an iteration ended: an exception caught by the handler of the loop, the early
  \<^verbatim>\<open>continue\<close> on an empty answer, the degrade path with the row count it saw, or a fitted
  model.\<close>

datatype outcome = Failed error | NoData | TooFewSamples nat | Published fit_trace

text \<open>The body of \<^verbatim>\<open>while True\<close>. \<open>jr\<close> is the answer of the range query, as the list of
  the \<^verbatim>\<open>values\<close> lists of its result entries; \<open>jl\<close> is the answer of the instant query,
  asked only after the usage points were found. The gauge is the only state that
  outlives the iteration.\<close>

definition loop_body ::
  "config \<Rightarrow> fitter \<Rightarrow> error + point list list \<Rightarrow> error + real list \<Rightarrow> gauge
     \<Rightarrow> outcome \<times> gauge" where
  "loop_body cfg fit jr jl G =
     (case jr of
        Inl e \<Rightarrow> (Failed e, G)
      | Inr result \<Rightarrow>
          (let points = concat result
           in if points = [] then (NoData, G)
              else
                (let s = normalize points
                 in case jl of
                      Inl e \<Rightarrow> (Failed e, G)
                    | Inr lres \<Rightarrow>
                        (let util = utilization s (cpu_limit lres);
                             (X, y) = make_supervised util (nat (LAGS cfg))
                         in if length X < 20
                            then (TooFewSamples (length X), gauge_set G (DEPLOY cfg) 0)
                            else
                              (case forecast fit X y util (nat (LAGS cfg)) of
                                 Inl e \<Rightarrow> (Failed e, G)
                               | Inr tr \<Rightarrow>
                                   (Published tr,
                                    gauge_set G (DEPLOY cfg) (clamp (yhat tr))))))))"

text \<open>A finite run of the loop: one pair of answers for every tick.\<close>

fun loop ::
  "config \<Rightarrow> fitter \<Rightarrow> ((error + point list list) \<times> (error + real list)) list \<Rightarrow> gauge
     \<Rightarrow> gauge" where
  "loop cfg fit [] G = G"
| "loop cfg fit ((jr, jl) # ticks) G = loop cfg fit ticks (snd (loop_body cfg fit jr jl G))"

section \<open>Notions used to state the properties\<close>

text \<open>A point list that is already dense on the grid of the resampler: not empty, and
  its timestamps are the left edges of consecutive 5 second buckets, one point each, in
  ascending order.\<close>

definition dense_uniform :: "point list \<Rightarrow> bool" where
  "dense_uniform pts \<longleftrightarrow>
     pts \<noteq> [] \<and>
     map fst pts = map (\<lambda>k. bucket_label (bucket (fst (hd pts)) + int k)) [0 ..< length pts]"

text \<open>The reading of ``last write wins'': the value of the latest point, in input order,
  among the points with timestamp \<open>t\<close>.\<close>

definition last_write :: "point list \<Rightarrow> real \<Rightarrow> real option" where
  "last_write points t = map_option snd (find (\<lambda>p. fst p = t) (rev points))"

text \<open>The points of a series: every cell that is present, with its index label.\<close>

definition series_points :: "series \<Rightarrow> point list" where
  "series_points s = List.map_filter (\<lambda>(t, c). map_option (\<lambda>v. (t, v)) c) s"

text \<open>The utilisation series of an iteration, from the two answers.\<close>

definition util_of :: "point list list \<Rightarrow> real list \<Rightarrow> cell list" where
  "util_of result lres = utilization (normalize (concat result)) (cpu_limit lres)"

text \<open>The trace of the model-fitting branch, when the iteration took it.\<close>

definition published_trace :: "outcome \<Rightarrow> fit_trace option" where
  "published_trace out = (case out of Published tr \<Rightarrow> Some tr | _ \<Rightarrow> None)"

text \<open>The rows of a dataset that the ordered split assigns to the training partition.\<close>

definition training_rows :: "'a list \<Rightarrow> 'a list" where
  "training_rows X = take (length X - n_test_of (length X)) X"

text \<open>A configuration and a stand-in for the optimiser, for concrete runs: the fitter that
  returns the constant model \<open>c\<close> whatever the data.\<close>

definition example_config :: config where
  "example_config = \<lparr> NAMESPACE = ''demo'', DEPLOY = ''cpu-demo'', LAGS = 1, INTERVAL = 60 \<rparr>"

definition constant_fit :: "real \<Rightarrow> fitter" where
  "constant_fit c = (\<lambda>X y. \<lparr> coef = [0], intercept = c \<rparr>)"

section \<open>Facts about lists used below\<close>

lemma map_filter_all_None:
  "(\<And>x. x \<in> set xs \<Longrightarrow> f x = None) \<Longrightarrow> List.map_filter f xs = []"
  by (induction xs) (simp_all add: map_filter_simps)

lemma map_filter_all_Some:
  "(\<And>x. x \<in> set xs \<Longrightarrow> f x = Some (h x)) \<Longrightarrow> List.map_filter f xs = map h xs"
  by (induction xs) (simp_all add: map_filter_simps)

lemma map_filter_map_comp: "List.map_filter f (map g xs) = List.map_filter (f \<circ> g) xs"
  by (induction xs) (simp_all add: map_filter_simps split: option.splits)

lemma map_filter_app:
  "List.map_filter f (xs @ ys) = List.map_filter f xs @ List.map_filter f ys"
  by (induction xs) (simp_all add: map_filter_simps split: option.splits)

lemma those_map_Some: "those (map (\<lambda>x. Some (f x)) xs) = Some (map f xs)"
  by (induction xs) simp_all

lemma those_None: "None \<in> set cs \<Longrightarrow> those cs = None"
  by (induction cs) (auto split: option.splits)

lemma set_py_range: "set (py_range a b) = {a ..< b}"
  by (simp add: py_range_def)

lemma length_py_range: "length (py_range a b) = b - a"
  by (simp add: py_range_def)

lemma nth_py_range: "j < b - a \<Longrightarrow> py_range a b ! j = a + j"
  by (simp add: py_range_def)

section \<open>The feature builder\<close>

lemma shift_nth:
  "r < length ts \<Longrightarrow> shift ts i ! r = (if r < i then None else ts ! (r - i))"
  by (auto simp: shift_def nth_append min_def)

text \<open>Row \<open>r\<close> of the lag frame holds the cells \<open>1, \<dots>, lags\<close> places before \<open>r\<close>, missing
  where the series has not started yet.\<close>

lemma lag_row:
  "r < length ts \<Longrightarrow>
     frame_row (lag_columns ts lags) r
       = map (\<lambda>i. if r < i then None else ts ! (r - i)) (py_range 1 (lags + 1))"
  by (simp add: frame_row_def lag_columns_def shift_nth)

lemma lag_row_early:
  assumes "r < length ts" "r < lags"
  shows "those (frame_row (lag_columns ts lags) r) = None"
proof -
  have "lags \<in> set (py_range 1 (lags + 1))"
    using assms by (auto simp: set_py_range)
  then have "None \<in> set (frame_row (lag_columns ts lags) r)"
    using assms by (force simp: lag_row image_iff)
  then show ?thesis by (rule those_None)
qed

lemma lag_row_dense:
  assumes "r < length vs" "lags \<le> r"
  shows "frame_row (lag_columns (map Some vs) lags) r
           = map (\<lambda>i. Some (vs ! (r - i))) (py_range 1 (lags + 1))"
  using assms by (auto simp: lag_row set_py_range)

lemma rows_early:
  assumes "n \<le> length ts" "n \<le> lags"
  shows "dropna (map (\<lambda>r. (frame_row (lag_columns ts lags) r, ts ! r)) [0 ..< n]) = []"
  unfolding dropna_def
proof (rule map_filter_all_None)
  fix x assume "x \<in> set (map (\<lambda>r. (frame_row (lag_columns ts lags) r, ts ! r)) [0 ..< n])"
  then obtain r where r: "r < n" and x: "x = (frame_row (lag_columns ts lags) r, ts ! r)"
    by auto
  have "those (frame_row (lag_columns ts lags) r) = None"
    using lag_row_early[of r ts lags] r assms by simp
  then show "keep_row x = None" by (simp add: keep_row_def x)
qed

text \<open>A series no longer than the lag count leaves no row.\<close>

lemma make_supervised_short:
  assumes "length ts \<le> lags"
  shows "make_supervised ts lags = ([], [])"
  using rows_early[of "length ts" ts lags] assms by (simp add: make_supervised_def)

lemma rows_late:
  "dropna (map (\<lambda>r. (frame_row (lag_columns (map Some vs) lags) r, map Some vs ! r))
               [lags ..< length vs])
     = map (\<lambda>r. (map (\<lambda>i. vs ! (r - i)) (py_range 1 (lags + 1)), vs ! r)) [lags ..< length vs]"
proof -
  let ?g = "\<lambda>r. (frame_row (lag_columns (map Some vs) lags) r, map Some vs ! r)"
  have "List.map_filter (keep_row \<circ> ?g) [lags ..< length vs]
     = map (\<lambda>r. (map (\<lambda>i. vs ! (r - i)) (py_range 1 (lags + 1)), vs ! r)) [lags ..< length vs]"
  proof (rule map_filter_all_Some)
    fix r assume "r \<in> set [lags ..< length vs]"
    then have r: "r < length vs" "lags \<le> r" by auto
    show "(keep_row \<circ> ?g) r = Some (map (\<lambda>i. vs ! (r - i)) (py_range 1 (lags + 1)), vs ! r)"
      using r by (simp add: keep_row_def lag_row_dense[OF r] those_map_Some)
  qed
  then show ?thesis by (simp add: dropna_def map_filter_map_comp)
qed

text \<open>The dataset of a dense series, in closed form: the rows are the positions
  \<open>lags, \<dots>, N - 1\<close> of the series, in that order.\<close>

lemma make_supervised_dense:
  "make_supervised (map Some vs) lags
     = (map (\<lambda>r. map (\<lambda>i. vs ! (r - i)) (py_range 1 (lags + 1))) [lags ..< length vs],
        drop lags vs)"
proof (cases "lags \<le> length vs")
  case False
  then show ?thesis using make_supervised_short[of "map Some vs" lags] by simp
next
  case True
  let ?g = "\<lambda>r. (frame_row (lag_columns (map Some vs) lags) r, map Some vs ! r)"
  have split: "[0 ..< length vs] = [0 ..< lags] @ [lags ..< length vs]"
    using True upt_add_eq_append[of 0 lags "length vs - lags"] by simp
  have y: "map (\<lambda>r. vs ! r) [lags ..< length vs] = drop lags vs"
    by (metis drop_map drop_upt map_nth add_0)
  have "dropna (map ?g [0 ..< length vs])
      = map (\<lambda>r. (map (\<lambda>i. vs ! (r - i)) (py_range 1 (lags + 1)), vs ! r)) [lags ..< length vs]"
    using rows_early[of lags "map Some vs" lags] True rows_late[of vs lags]
    by (subst split) (simp add: dropna_def map_filter_app)
  then show ?thesis
    using y by (simp add: make_supervised_def comp_def)
qed

text \<open>
  Claim C2. For a dense series of length \<open>N\<close> and a lag count \<open>L < N\<close>, the feature builder
  yields exactly \<open>N - L\<close> rows; the target of row \<open>i\<close> is the value at position \<open>i + L\<close> of the
  series, and feature \<open>j\<close> of row \<open>i\<close> (the column \<^verbatim>\<open>lag_(j+1)\<close>) is the value at position
  \<open>i + L - 1 - j\<close>, for every \<open>j\<close> below \<open>L\<close>.
\<close>

theorem make_supervised_rows:
  assumes "L < length series"
    and "make_supervised (map Some series) L = (X, y)"
  shows "length X = length series - L \<and> length y = length series - L \<and>
         (\<forall>i < length series - L.
            y ! i = series ! (i + L) \<and> length (X ! i) = L \<and>
            (\<forall>j < L. X ! i ! j = series ! (i + L - 1 - j)))"
proof -
  have X: "X = map (\<lambda>r. map (\<lambda>i. series ! (r - i)) (py_range 1 (L + 1))) [L ..< length series]"
    and y: "y = drop L series"
    using assms(2) by (simp_all add: make_supervised_dense)
  show ?thesis
  proof (intro conjI allI impI)
    show "length X = length series - L" by (simp add: X)
    show "length y = length series - L" by (simp add: y)
  next
    fix i assume "i < length series - L"
    then show "y ! i = series ! (i + L)" by (simp add: y add.commute)
  next
    fix i assume "i < length series - L"
    then show "length (X ! i) = L" by (simp add: X length_py_range)
  next
    fix i j assume "i < length series - L" "j < L"
    then show "X ! i ! j = series ! (i + L - 1 - j)"
      by (simp add: X length_py_range nth_py_range add.commute)
  qed
qed

theorem make_supervised_rows_witness:
  "(2::nat) < length [1, 2, 3, 4, 5 :: real] \<and>
   make_supervised (map Some [1, 2, 3, 4, 5]) 2 = ([[2, 1], [3, 2], [4, 3]], [3, 4, 5]) \<and>
   length [[2, 1], [3, 2], [4, 3 :: real]] = length [1, 2, 3, 4, 5 :: real] - 2 \<and>
   [3, 4, 5 :: real] ! 0 = [1, 2, 3, 4, 5] ! (0 + 2) \<and>
   [[2, 1], [3, 2], [4, 3 :: real]] ! 0 ! 1 = [1, 2, 3, 4, 5] ! (0 + 2 - 1 - 1)"
proof -
  have h1: "(2::nat) < length [1, 2, 3, 4, 5 :: real]" by simp
  have h2: "make_supervised (map Some [1, 2, 3, 4, 5]) 2 = ([[2, 1], [3, 2], [4, 3]], [3, 4, 5])"
    by code_simp
  from make_supervised_rows[OF h1 h2] h1 h2 show ?thesis by simp
qed

section \<open>The series normaliser\<close>

lemma length_ffill_from: "length (ffill_from prev cs) = length cs"
  by (induction prev cs rule: ffill_from.induct) simp_all

lemma ffill_from_id: "None \<notin> set cs \<Longrightarrow> ffill_from prev cs = cs"
  by (induction prev cs rule: ffill_from.induct) simp_all

lemma ffill_from_Some: "prev \<noteq> None \<Longrightarrow> None \<notin> set (ffill_from prev cs)"
  by (induction prev cs rule: ffill_from.induct) auto

lemma ffill_from_keeps:
  "i < length cs \<Longrightarrow> cs ! i \<noteq> None \<Longrightarrow> ffill_from prev cs ! i = cs ! i"
proof (induction prev cs arbitrary: i rule: ffill_from.induct)
  case (1 prev)
  then show ?case by simp
next
  case (2 prev cs)
  then show ?case by (cases i) simp_all
next
  case (3 prev v cs)
  then show ?case by (cases i) simp_all
qed

lemma bfill_id: "None \<notin> set cs \<Longrightarrow> bfill cs = cs"
  by (simp add: bfill_def ffill_def ffill_from_id)

lemma ffill_headed: "None \<notin> set (ffill (Some v # cs))"
  using ffill_from_Some[of "Some v" cs] by (simp add: ffill_def)

lemma bucket_of_label: "bucket (bucket_label b) = b"
  by (simp add: bucket_def bucket_label_def)

lemma bucket_mono: "s \<le> t \<Longrightarrow> bucket s \<le> bucket t"
  by (simp add: bucket_def floor_mono)

lemma bucket_label_inj: "bucket_label a = bucket_label b \<longleftrightarrow> a = b"
  by (simp add: bucket_label_def)

lemma filter_eq_upt: "k < n \<Longrightarrow> filter (\<lambda>j. j = k) [0 ..< n] = [k]"
  by (induction n) (auto simp: less_Suc_eq)

lemma length_resample_mean:
  "df \<noteq> [] \<Longrightarrow> length (resample_mean df) = Suc (nat (bucket (fst (last df)) - bucket (fst (hd df))))"
  by (simp add: resample_mean_def Let_def)

lemma resample_mean_nth:
  assumes "df \<noteq> []" "k \<le> nat (bucket (fst (last df)) - bucket (fst (hd df)))"
  shows "resample_mean df ! k =
           (bucket_label (bucket (fst (hd df)) + int k),
            bucket_mean (map snd (filter (\<lambda>p. bucket (fst p) = bucket (fst (hd df)) + int k) df)))"
proof -
  have "k < Suc (nat (bucket (fst (last df)) - bucket (fst (hd df))))" using assms(2) by simp
  then show ?thesis
    using assms(1) unfolding resample_mean_def Let_def
    by (simp only: if_False nth_map length_upt diff_zero nth_upt add_0)
qed

lemma resample_mean_keys:
  "df \<noteq> [] \<Longrightarrow>
     map fst (resample_mean df)
       = map (\<lambda>k. bucket_label (bucket (fst (hd df)) + int k))
             [0 ..< Suc (nat (bucket (fst (last df)) - bucket (fst (hd df))))]"
  by (simp add: resample_mean_def Let_def comp_def)

lemma dense_uniform_nth:
  assumes "dense_uniform pts" "k < length pts"
  shows "fst (pts ! k) = bucket_label (bucket (fst (hd pts)) + int k)"
proof -
  have "map fst pts ! k = map (\<lambda>k. bucket_label (bucket (fst (hd pts)) + int k)) [0 ..< length pts] ! k"
    using assms(1) by (simp add: dense_uniform_def)
  then show ?thesis using assms(2) by simp
qed

lemma dense_uniform_sorted:
  assumes "dense_uniform pts"
  shows "sorted (map fst pts)"
proof -
  have "\<forall>i j. i \<le> j \<longrightarrow> j < length (map fst pts) \<longrightarrow> map fst pts ! i \<le> map fst pts ! j"
    using dense_uniform_nth[OF assms] by (auto simp: bucket_label_def)
  then show ?thesis by (simp only: sorted_iff_nth_mono)
qed

lemma dense_uniform_filter:
  assumes "dense_uniform pts" "k < length pts"
  shows "filter (\<lambda>p. bucket (fst p) = bucket (fst (hd pts)) + int k) pts = [pts ! k]"
proof -
  let ?P = "\<lambda>p. bucket (fst p) = bucket (fst (hd pts)) + int k"
  have "filter ?P (map (\<lambda>j. pts ! j) [0 ..< length pts])
          = map (\<lambda>j. pts ! j) (filter (?P \<circ> (\<lambda>j. pts ! j)) [0 ..< length pts])"
    by (simp only: filter_map)
  also have "filter (?P \<circ> (\<lambda>j. pts ! j)) [0 ..< length pts] = filter (\<lambda>j. j = k) [0 ..< length pts]"
  proof (rule filter_cong[OF refl])
    fix j assume "j \<in> set [0 ..< length pts]"
    then have "j < length pts" by simp
    then show "(?P \<circ> (\<lambda>j. pts ! j)) j = (j = k)"
      by (simp add: dense_uniform_nth[OF assms(1)] bucket_of_label)
  qed
  also have "\<dots> = [k]" by (rule filter_eq_upt[OF assms(2)])
  finally show ?thesis by (simp add: map_nth)
qed

lemma resample_dense_uniform:
  assumes "dense_uniform pts"
  shows "resample_mean pts = map (\<lambda>p. (fst p, Some (snd p))) pts"
proof -
  have ne: "pts \<noteq> []" using assms by (simp add: dense_uniform_def)
  let ?n = "length pts"
  let ?lo = "bucket (fst (hd pts))"
  have last: "fst (last pts) = bucket_label (?lo + int (?n - 1))"
    using dense_uniform_nth[OF assms, of "?n - 1"] ne by (simp add: last_conv_nth)
  have span: "nat (bucket (fst (last pts)) - ?lo) = ?n - 1"
    by (simp add: last bucket_of_label)
  have len: "length (resample_mean pts) = ?n"
    using ne by (simp add: length_resample_mean span)
  show ?thesis
  proof (rule nth_equalityI)
    show "length (resample_mean pts) = length (map (\<lambda>p. (fst p, Some (snd p))) pts)"
      by (simp add: len)
  next
    fix k assume "k < length (resample_mean pts)"
    then have k: "k < ?n" by (simp add: len)
    then have "k \<le> nat (bucket (fst (last pts)) - ?lo)" by (simp add: span)
    from resample_mean_nth[OF ne this]
    show "resample_mean pts ! k = map (\<lambda>p. (fst p, Some (snd p))) pts ! k"
      using k by (simp add: dense_uniform_filter[OF assms k] dense_uniform_nth[OF assms k]
                            bucket_mean_def mean_def)
  qed
qed

lemma normalize_dense_uniform:
  assumes "dense_uniform pts"
  shows "normalize pts = map (\<lambda>p. (fst p, Some (snd p))) pts"
proof -
  have srt: "sort_values pts = pts"
    using dense_uniform_sorted[OF assms] by (simp add: sort_values_def sort_key_id_if_sorted)
  have nn: "None \<notin> set (map snd (map (\<lambda>p. (fst p, Some (snd p))) pts))" by auto
  have "ffill (map snd (map (\<lambda>p. (fst p, Some (snd p))) pts))
          = map snd (map (\<lambda>p. (fst p, Some (snd p))) pts)"
    unfolding ffill_def by (rule ffill_from_id[OF nn])
  then have fill: "bfill (ffill (map snd (map (\<lambda>p. (fst p, Some (snd p))) pts)))
                    = map snd (map (\<lambda>p. (fst p, Some (snd p))) pts)"
    using bfill_id[OF nn] by simp
  show ?thesis
    unfolding normalize_def Let_def srt resample_dense_uniform[OF assms] fill
    by (simp only: zip_map_fst_snd)
qed

lemma sort_values_sorted: "sorted (map fst (sort_values points))"
  by (simp add: sort_values_def)

lemma sort_values_mset: "mset (sort_values points) = mset points"
  by (simp add: sort_values_def)

lemma sort_values_set: "set (sort_values points) = set points"
  by (simp add: sort_values_def)

lemma sort_values_Nil: "sort_values points = [] \<longleftrightarrow> points = []"
  using sort_values_set[of points] by (metis set_empty)

lemma mean_perm:
  assumes "mset xs = mset ys"
  shows "mean xs = mean ys"
proof -
  have "sum_list xs = sum_list ys"
    using assms by (metis sum_mset_sum_list)
  moreover have "length xs = length ys"
    using assms by (metis size_mset)
  ultimately show ?thesis by (simp add: mean_def)
qed

lemma bucket_values_perm:
  "mean (map snd (filter P (sort_values points))) = mean (map snd (filter P points))"
  by (rule mean_perm) (simp add: sort_values_mset)

lemma sorted_bounds:
  assumes "sorted (map fst df)" "p \<in> set df"
  shows "fst (hd df) \<le> fst p \<and> fst p \<le> fst (last df)"
proof -
  have ne: "df \<noteq> []" using assms(2) by auto
  obtain i where i: "i < length df" "df ! i = p"
    using assms(2) by (auto simp: in_set_conv_nth)
  have mono: "\<And>a b. a \<le> b \<Longrightarrow> b < length df \<Longrightarrow> fst (df ! a) \<le> fst (df ! b)"
    using assms(1) by (auto simp: sorted_iff_nth_mono dest!: spec)
  have "fst (df ! 0) \<le> fst (df ! i)" using mono[of 0 i] i by simp
  moreover have "fst (df ! i) \<le> fst (df ! (length df - 1))"
    using mono[of i "length df - 1"] i by simp
  ultimately show ?thesis
    using ne i by (simp add: hd_conv_nth last_conv_nth)
qed

text \<open>The position of the bucket of a point in the resampled series.\<close>

lemma bucket_position:
  assumes "sorted (map fst df)" "p \<in> set df"
  shows "bucket (fst (hd df)) + int (nat (bucket (fst p) - bucket (fst (hd df)))) = bucket (fst p)"
    and "nat (bucket (fst p) - bucket (fst (hd df)))
           \<le> nat (bucket (fst (last df)) - bucket (fst (hd df)))"
  using sorted_bounds[OF assms] bucket_mono[of "fst (hd df)" "fst p"]
        bucket_mono[of "fst p" "fst (last df)"]
  by simp_all

lemma resample_cell_of_point:
  assumes "sorted (map fst df)" "p \<in> set df"
  shows "resample_mean df ! nat (bucket (fst p) - bucket (fst (hd df)))
           = (bucket_label (bucket (fst p)),
              Some (mean (map snd (filter (\<lambda>q. bucket (fst q) = bucket (fst p)) df))))"
proof -
  have ne: "df \<noteq> []" using assms(2) by auto
  have "filter (\<lambda>q. bucket (fst q) = bucket (fst p)) df \<noteq> []"
    using assms(2) by (auto simp: filter_empty_conv)
  then have "bucket_mean (map snd (filter (\<lambda>q. bucket (fst q) = bucket (fst p)) df))
               = Some (mean (map snd (filter (\<lambda>q. bucket (fst q) = bucket (fst p)) df)))"
    by (simp add: bucket_mean_def)
  then show ?thesis
    using resample_mean_nth[OF ne bucket_position(2)[OF assms]]
    by (simp only: bucket_position(1)[OF assms])
qed

lemma resample_head_cell:
  assumes "sorted (map fst df)" "df \<noteq> []"
  shows "\<exists>v cs. map snd (resample_mean df) = Some v # cs"
proof -
  have "hd df \<in> set df" using assms(2) by simp
  from resample_cell_of_point[OF assms(1) this]
  have "snd (resample_mean df ! 0) \<noteq> None" by simp
  moreover have "resample_mean df \<noteq> []"
    using length_resample_mean[OF assms(2)] by auto
  ultimately show ?thesis
    by (cases "resample_mean df") auto
qed

text \<open>After the fill no cell of a non-empty answer is missing, and the backward fill has
  nothing left to do.\<close>

lemma normalize_filled:
  assumes "points \<noteq> []"
  shows "normalize points
           = zip (map fst (resample_mean (sort_values points)))
                 (ffill (map snd (resample_mean (sort_values points))))"
    and "None \<notin> set (ffill (map snd (resample_mean (sort_values points))))"
proof -
  have ne: "sort_values points \<noteq> []" using assms by (simp add: sort_values_Nil)
  obtain v cs where "map snd (resample_mean (sort_values points)) = Some v # cs"
    using resample_head_cell[OF sort_values_sorted ne] by (elim exE)
  then show nn: "None \<notin> set (ffill (map snd (resample_mean (sort_values points))))"
    using ffill_headed[of v cs] by simp
  show "normalize points
           = zip (map fst (resample_mean (sort_values points)))
                 (ffill (map snd (resample_mean (sort_values points))))"
    by (simp add: normalize_def Let_def bfill_id[OF nn])
qed

lemma length_normalize:
  "points \<noteq> [] \<Longrightarrow> length (normalize points) = length (resample_mean (sort_values points))"
  by (simp add: normalize_filled(1) ffill_def length_ffill_from)

lemma normalize_cells:
  assumes "points \<noteq> []"
  shows "None \<notin> set (map snd (normalize points))"
proof -
  have "map snd (normalize points) = ffill (map snd (resample_mean (sort_values points)))"
    by (simp add: normalize_filled(1)[OF assms] ffill_def length_ffill_from)
  then show ?thesis using normalize_filled(2)[OF assms] by simp
qed

lemma distinct_bucket_labels:
  "distinct (map (\<lambda>k. bucket_label (b + int k)) [0 ..< n])"
  by (simp add: distinct_map inj_on_def bucket_label_inj)

lemma normalize_at_point:
  assumes "p \<in> set points"
  shows "map_of (normalize points) (bucket_label (bucket (fst p)))
           = Some (Some (mean (map snd (filter (\<lambda>q. bucket (fst q) = bucket (fst p)) points))))"
proof -
  let ?df = "sort_values points"
  let ?s = "resample_mean ?df"
  let ?k = "nat (bucket (fst p) - bucket (fst (hd ?df)))"
  have ne: "points \<noteq> []" using assms by auto
  have dfne: "?df \<noteq> []" using ne by (simp add: sort_values_Nil)
  have pin: "p \<in> set ?df" using assms by (simp add: sort_values_set)
  have cell: "?s ! ?k = (bucket_label (bucket (fst p)),
                Some (mean (map snd (filter (\<lambda>q. bucket (fst q) = bucket (fst p)) ?df))))"
    by (rule resample_cell_of_point[OF sort_values_sorted pin])
  have k: "?k < length ?s"
    using bucket_position(2)[OF sort_values_sorted pin] length_resample_mean[OF dfne] by simp
  have len: "length (map fst ?s) = length (ffill (map snd ?s))"
    by (simp add: ffill_def length_ffill_from)
  have dist: "distinct (map fst ?s)"
    by (simp only: resample_mean_keys[OF dfne] distinct_bucket_labels)
  have k': "?k < length (ffill (map snd ?s))" using k len by simp
  have key: "map fst ?s ! ?k = bucket_label (bucket (fst p))"
    using k cell by simp
  have "ffill (map snd ?s) ! ?k = map snd ?s ! ?k"
    unfolding ffill_def using k cell by (intro ffill_from_keeps) simp_all
  then have val: "ffill (map snd ?s) ! ?k
      = Some (mean (map snd (filter (\<lambda>q. bucket (fst q) = bucket (fst p)) points)))"
    using k cell by (simp add: bucket_values_perm)
  show ?thesis
    using map_of_zip_nth[OF len dist k'] 
    by (simp only: normalize_filled(1)[OF ne] key val)
qed

lemma series_points_dense: "series_points (map (\<lambda>p. (fst p, Some (snd p))) pts) = pts"
  by (induction pts) (simp_all add: series_points_def map_filter_simps)

lemma series_of_points:
  assumes "None \<notin> set (map snd s)"
  shows "map (\<lambda>p. (fst p, Some (snd p))) (series_points s) = s"
  using assms by (induction s) (auto simp: series_points_def map_filter_simps split: option.splits)

lemma normalize_keys:
  assumes "points \<noteq> []"
  shows "map fst (normalize points)
           = map (\<lambda>k. bucket_label (bucket (fst (hd (sort_values points))) + int k))
                 [0 ..< length (normalize points)]"
proof -
  have ne: "sort_values points \<noteq> []" using assms by (simp add: sort_values_Nil)
  have "map fst (normalize points) = map fst (resample_mean (sort_values points))"
    by (simp add: normalize_filled(1)[OF assms] ffill_def length_ffill_from)
  then show ?thesis
    by (simp only: resample_mean_keys[OF ne] length_normalize[OF assms] length_resample_mean[OF ne])
qed

lemma normalize_output_dense_uniform:
  assumes "points \<noteq> []"
  shows "dense_uniform (series_points (normalize points))"
proof -
  let ?s = "normalize points"
  let ?q = "series_points ?s"
  let ?lo = "bucket (fst (hd (sort_values points)))"
  have ne: "sort_values points \<noteq> []" using assms by (simp add: sort_values_Nil)
  have s: "map (\<lambda>p. (fst p, Some (snd p))) ?q = ?s"
    by (rule series_of_points[OF normalize_cells[OF assms]])
  have len: "length ?q = length ?s"
    using arg_cong[OF s, of length] by simp
  have sne: "?s \<noteq> []"
    using length_normalize[OF assms] length_resample_mean[OF ne] by auto
  then have qne: "?q \<noteq> []" using len by auto
  have keys: "map fst ?q = map (\<lambda>k. bucket_label (?lo + int k)) [0 ..< length ?q]"
    using arg_cong[OF s, of "map fst"] normalize_keys[OF assms] by (simp add: comp_def len)
  have "fst (hd ?q) = map fst ?q ! 0" using qne by (simp add: hd_conv_nth)
  also have "\<dots> = bucket_label ?lo" using qne by (simp add: keys)
  finally have "bucket (fst (hd ?q)) = ?lo" by (simp add: bucket_of_label)
  then show ?thesis
    using qne keys by (simp add: dense_uniform_def)
qed

text \<open>
  Claim C7, as stated: normalisation sorts the raw points by timestamp, and of the points
  that share a timestamp the one written last is retained. The second half fails: two
  points at timestamp 0 with the values 1 and 3 leave the value 2 at that timestamp, where
  the last write is 3.
\<close>

theorem last_write_counterexample:
  "map_of (normalize [(0, 1), (0, 3)]) 0 = Some (Some 2) \<and>
   last_write [(0, 1), (0, 3)] 0 = Some 3"
  by (simp add: normalize_def sort_values_def resample_mean_def bucket_def bucket_label_def
                bucket_mean_def mean_def ffill_def bfill_def last_write_def)

text \<open>
  Claim C7, amended. Normalisation first sorts the raw points ascending by timestamp,
  keeping every point. Points that share a timestamp are all retained, and the value the
  normalised series holds at the 5 second bucket of a point is the mean of the values of
  all points in that bucket.
\<close>

theorem normalize_sorts_and_averages:
  "sorted (map fst (sort_values points)) \<and>
   mset (sort_values points) = mset points \<and>
   (\<forall>p \<in> set points.
      map_of (normalize points) (bucket_label (bucket (fst p)))
        = Some (Some (mean (map snd (filter (\<lambda>q. bucket (fst q) = bucket (fst p)) points)))))"
  using sort_values_sorted sort_values_mset normalize_at_point by blast

theorem normalize_sorts_and_averages_witness:
  "(0, 3) \<in> set [(0, 1), (0, 3 :: real)] \<and>
   sort_values [(7, 4), (0, 1), (0, 3)] = [(0, 1), (0, 3), (7, 4)] \<and>
   map_of (normalize [(7, 4), (0, 1), (0, 3)]) (bucket_label (bucket 0)) = Some (Some 2)"
proof -
  have "(0, 3) \<in> set [(7, 4), (0, 1), (0, 3 :: real)]" by simp
  with normalize_sorts_and_averages[of "[(7, 4), (0, 1), (0, 3)]"]
  have "map_of (normalize [(7, 4), (0, 1), (0, 3)]) (bucket_label (bucket (fst (0 :: real, 3 :: real))))
        = Some (Some (mean (map snd (filter (\<lambda>q. bucket (fst q) = bucket (fst (0 :: real, 3 :: real)))
                                            [(7, 4), (0, 1), (0, 3)]))))"
    by blast
  then show ?thesis
    by (simp add: sort_values_def bucket_def mean_def)
qed

text \<open>
  Claim C8, as stated: a series that is already dense and on a uniform cadence comes back
  unchanged. A dense series on the uniform cadence of 60 seconds, the cadence of the range
  query, does not: three points one minute apart come back as 25 points.
\<close>

theorem resample_changes_coarse_series_counterexample:
  "length (normalize [(0, 1), (60, 2), (120, 3)]) = 25 \<and>
   normalize [(0, 1), (60, 2), (120, 3)] \<noteq> [(0, Some 1), (60, Some 2), (120, Some 3)]"
proof -
  have "length (normalize [(0, 1), (60, 2), (120, 3)]) = 25"
    by (simp add: length_normalize length_resample_mean sort_values_def bucket_def)
  then show ?thesis by auto
qed

text \<open>
  Claim C8, amended. A series that is already dense on the 5 second grid of the resampler
  (one point at each of consecutive multiples of 5 seconds) comes back unchanged; and
  normalisation is idempotent: applied to the points of its own output it returns that
  output.
\<close>

theorem normalize_fixes_dense_grid:
  "(dense_uniform pts \<longrightarrow> normalize pts = map (\<lambda>p. (fst p, Some (snd p))) pts) \<and>
   (points \<noteq> [] \<longrightarrow> normalize (series_points (normalize points)) = normalize points)"
proof (intro conjI impI)
  assume "dense_uniform pts"
  then show "normalize pts = map (\<lambda>p. (fst p, Some (snd p))) pts"
    by (rule normalize_dense_uniform)
next
  assume ne: "points \<noteq> []"
  have "normalize (series_points (normalize points))
          = map (\<lambda>p. (fst p, Some (snd p))) (series_points (normalize points))"
    by (rule normalize_dense_uniform[OF normalize_output_dense_uniform[OF ne]])
  also have "\<dots> = normalize points"
    by (rule series_of_points[OF normalize_cells[OF ne]])
  finally show "normalize (series_points (normalize points)) = normalize points" .
qed

theorem normalize_fixes_dense_grid_witness:
  "dense_uniform [(10, 1), (15, 2), (20, 4)] \<and>
   normalize [(10, 1), (15, 2), (20, 4)] = [(10, Some 1), (15, Some 2), (20, Some 4)] \<and>
   [(0, 1), (60, 2 :: real)] \<noteq> [] \<and>
   normalize (series_points (normalize [(0, 1), (60, 2)])) = normalize [(0, 1), (60, 2)]"
proof -
  have d: "dense_uniform [(10, 1), (15, 2), (20, 4)]"
    by (simp add: dense_uniform_def bucket_def bucket_label_def upt_rec)
  have n: "[(0, 1), (60, 2 :: real)] \<noteq> []" by simp
  from normalize_fixes_dense_grid[of "[(10, 1), (15, 2), (20, 4)]" "[(0, 1), (60, 2)]"] d n
  show ?thesis by simp
qed

section \<open>The latest window and the split\<close>

lemma n_test_of_eq: "n_test_of n = (n + 4) div 5"
proof -
  have a: "n \<le> 5 * ((n + 4) div 5)" by arith
  have b: "5 * ((n + 4) div 5) < n + 5" by arith
  have "real n \<le> real (5 * ((n + 4) div 5))" using a by (rule of_nat_mono)
  then have a': "0.2 * real n \<le> of_int (int ((n + 4) div 5))" by simp
  have "real (5 * ((n + 4) div 5)) < real (n + 5)" using b by (simp only: of_nat_less_iff)
  then have b': "of_int (int ((n + 4) div 5)) - 1 < 0.2 * real n" by simp
  have "\<lceil>0.2 * real n\<rceil> = int ((n + 4) div 5)"
    using b' a' by (rule ceiling_unique)
  then show ?thesis by (simp only: n_test_of_def nat_int)
qed

lemma collect_map_Inr: "collect (map (\<lambda>i. Inr (f i)) xs) = Inr (map f xs)"
  by (induction xs) simp_all

lemma latest_window_ok:
  assumes "lags \<le> length util"
  shows "latest_window util lags
           = Inr (map (\<lambda>i. util ! (length util - i)) (py_range 1 (lags + 1)))"
proof -
  have "map (\<lambda>i. iloc_neg util i) (py_range 1 (lags + 1))
          = map (\<lambda>i. Inr (util ! (length util - i))) (py_range 1 (lags + 1))"
    using assms by (intro map_cong refl) (auto simp: set_py_range iloc_neg_def)
  then show ?thesis
    by (simp only: latest_window_def collect_map_Inr)
qed

text \<open>
  Claim C10. For a normalised utilisation series of length at least \<open>L\<close>, the raw prediction
  row built in the loop has \<open>L\<close> columns, its column \<open>j\<close> is the value \<open>j + 1\<close> places from the
  end of the series, and it is, element for element and in the same column order, the
  feature row \<^verbatim>\<open>make_supervised\<close> emits for the next index, that is the last row of the
  dataset of the series extended by one further value.
\<close>

theorem latest_window_matches_next_row:
  assumes "L \<le> length util"
  shows "\<exists>w. latest_window (map Some util) L = Inr (map Some w) \<and>
             length w = L \<and>
             (\<forall>j < L. w ! j = util ! (length util - (j + 1))) \<and>
             fst (make_supervised (map Some (util @ [v])) L) \<noteq> [] \<and>
             last (fst (make_supervised (map Some (util @ [v])) L)) = w"
proof -
  let ?w = "map (\<lambda>i. util ! (length util - i)) (py_range 1 (L + 1))"
  have "map (\<lambda>i. map Some util ! (length (map Some util) - i)) (py_range 1 (L + 1))
          = map (\<lambda>i. Some (util ! (length util - i))) (py_range 1 (L + 1))"
    using assms by (intro map_cong refl) (auto simp: set_py_range)
  then have a: "latest_window (map Some util) L = Inr (map Some ?w)"
    using assms latest_window_ok[of L "map Some util"] by (simp add: comp_def)
  have b: "length ?w = L" by (simp add: length_py_range)
  have c: "\<forall>j < L. ?w ! j = util ! (length util - (j + 1))"
    by (simp add: length_py_range nth_py_range add.commute)
  let ?rows = "map (\<lambda>r. map (\<lambda>i. (util @ [v]) ! (r - i)) (py_range 1 (L + 1)))
                   [L ..< length (util @ [v])]"
  have rows: "fst (make_supervised (map Some (util @ [v])) L) = ?rows"
    by (simp only: make_supervised_dense fst_conv)
  have upt: "[L ..< length (util @ [v])] = [L ..< length util] @ [length util]"
    using assms by simp
  have d: "?rows \<noteq> []" by (simp only: upt) simp
  have "last ?rows = map (\<lambda>i. (util @ [v]) ! (length util - i)) (py_range 1 (L + 1))"
    by (simp only: upt) simp
  also have "\<dots> = ?w"
    using assms by (intro map_cong refl) (auto simp: set_py_range nth_append)
  finally have e: "last ?rows = ?w" .
  show ?thesis
    using a b c d e by (intro exI[of _ ?w]) (simp only: rows simp_thms)
qed

theorem latest_window_matches_next_row_witness:
  "(2::nat) \<le> length [1, 2, 3, 4, 5 :: real] \<and>
   latest_window (map Some [1, 2, 3, 4, 5]) 2 = Inr (map Some [5, 4]) \<and>
   last (fst (make_supervised (map Some ([1, 2, 3, 4, 5] @ [9])) 2)) = [5, 4]"
proof -
  have h: "(2::nat) \<le> length [1, 2, 3, 4, 5 :: real]" by simp
  have lw: "latest_window (map Some [1, 2, 3, 4, 5]) 2 = Inr (map Some [5, 4])"
    by (simp add: latest_window_def py_range_def iloc_neg_def upt_conv_Cons)
  from latest_window_matches_next_row[OF h, of 9] obtain w where
    w: "latest_window (map Some [1, 2, 3, 4, 5]) 2 = Inr (map Some w)"
       "last (fst (make_supervised (map Some ([1, 2, 3, 4, 5] @ [9])) 2)) = w"
    by (elim exE conjE)
  from w(1) have "map Some w = map Some [5, 4]" by (simp only: lw sum.inject)
  then have "w = [5, 4]" by (simp only: inj_map_eq_map[OF inj_Some])
  with w(2) h lw show ?thesis by (simp only: simp_thms)
qed

section \<open>The model-fitting branch and the loop body\<close>

lemma those_dense: "None \<notin> set cs \<Longrightarrow> those cs = Some (map the cs)"
proof (induction cs)
  case Nil
  then show ?case by simp
next
  case (Cons a cs)
  then show ?case by (cases a) simp_all
qed

lemma dense_cells: "None \<notin> set cs \<Longrightarrow> cs = map Some (map the cs)"
proof (induction cs)
  case Nil
  then show ?case by simp
next
  case (Cons a cs)
  then show ?case by (cases a) simp_all
qed

lemma forecast_InrD:
  assumes "forecast fit X y util lags = Inr tr"
  shows "scaler_fit X = Inr (scaler tr)"
    and "Xs tr = scaler_transform (scaler tr) X"
    and "train_test_split (Xs tr) y = Inr (Xtr tr, Xte tr, ytr tr, yte tr)"
    and "model tr = fit (Xtr tr) (ytr tr)"
    and "latest_window util lags = Inr (x_last_raw tr)"
    and "x_last tr = scaler_transform_row (scaler tr) (x_last_raw tr)"
    and "\<exists>row. those (x_last tr) = Some row \<and> yhat tr = predict (model tr) row"
  using assms unfolding forecast_def fit_transform_def Let_def
  by (auto split: sum.splits option.splits prod.splits)

lemma train_test_split_InrD:
  assumes "train_test_split A b = Inr (Atr, Ate, btr, bte)" "length b = length A"
  shows "Atr = take (length A - n_test_of (length A)) A"
    and "Ate = drop (length A - n_test_of (length A)) A"
    and "btr = take (length A - n_test_of (length A)) b"
    and "bte = drop (length A - n_test_of (length A)) b"
    and "Atr = training_rows A"
  using assms unfolding train_test_split_def Let_def training_rows_def
  by (auto split: if_splits)

lemma split_sizes:
  fixes n :: nat
  shows "n_test_of n \<le> n"
    and "5 * (n - n_test_of n) \<le> 4 * n"
    and "4 * n < 5 * (n - n_test_of n) + 5"
    and "2 \<le> n \<Longrightarrow> 0 < n - n_test_of n"
proof -
  show "n_test_of n \<le> n" unfolding n_test_of_eq by arith
  show "5 * (n - n_test_of n) \<le> 4 * n" unfolding n_test_of_eq by arith
  show "4 * n < 5 * (n - n_test_of n) + 5" unfolding n_test_of_eq by arith
  show "2 \<le> n \<Longrightarrow> 0 < n - n_test_of n" unfolding n_test_of_eq by arith
qed

lemma split_sizes_exact:
  assumes "5 dvd n"
  shows "5 * (n - n_test_of n) = 4 * n \<and> 5 * n_test_of n = n"
proof -
  obtain k where "n = 5 * k" using assms by (elim dvdE)
  then show ?thesis unfolding n_test_of_eq by simp
qed

lemma scaler_fit_ok:
  assumes "X \<noteq> []" "0 < n_features X"
  shows "\<exists>sc. scaler_fit X = Inr sc \<and> length (scaler_mean sc) = n_features X
              \<and> length (scaler_scale sc) = n_features X"
  using assms by (simp add: scaler_fit_def column_means_def column_scales_def)

lemma transform_row_dense:
  assumes "None \<notin> set raw"
  shows "None \<notin> set (scaler_transform_row sc raw)"
proof
  assume "None \<in> set (scaler_transform_row sc raw)"
  then obtain c m s where "(c, m, s) \<in> set (zip raw (zip (scaler_mean sc) (scaler_scale sc)))"
    and "map_option (\<lambda>x. scale_value (x, m, s)) c = None"
    unfolding scaler_transform_row_def by force
  then have "c \<in> set raw" "c = None" by (auto dest: set_zip_leftD)
  then show False using assms by simp
qed

lemma latest_window_dense:
  assumes "None \<notin> set util" "lags \<le> length util"
  shows "\<exists>raw. latest_window util lags = Inr raw \<and> None \<notin> set raw"
proof -
  have "None \<notin> set (map (\<lambda>i. util ! (length util - i)) (py_range 1 (lags + 1)))"
  proof
    assume "None \<in> set (map (\<lambda>i. util ! (length util - i)) (py_range 1 (lags + 1)))"
    then obtain i where i: "1 \<le> i" "i \<le> lags" "util ! (length util - i) = None"
      by (auto simp: set_py_range)
    then have "length util - i < length util" using assms(2) by simp
    then have "util ! (length util - i) \<in> set util" by (rule nth_mem)
    then show False using i(3) assms(1) by simp
  qed
  then show ?thesis using latest_window_ok[OF assms(2)] by simp
qed

lemma forecast_ok:
  assumes n: "20 \<le> length X" and L: "0 < lags" and rows: "\<forall>r \<in> set X. length r = lags"
    and dense: "None \<notin> set util" and len: "lags \<le> length util"
  shows "\<exists>tr. forecast fit X y util lags = Inr tr"
proof -
  have ne: "X \<noteq> []" using n by auto
  then have "hd X \<in> set X" by simp
  then have nf: "n_features X = lags" using rows ne by (cases X) (simp_all add: n_features_def)
  obtain sc where sc: "scaler_fit X = Inr sc"
    using scaler_fit_ok[OF ne] nf L by auto
  have "0 < length (scaler_transform sc X) - n_test_of (length (scaler_transform sc X))"
    using n split_sizes(4)[of "length X"] by (simp add: scaler_transform_def)
  then obtain sp where sp: "train_test_split (scaler_transform sc X) y = Inr sp"
    by (simp add: train_test_split_def Let_def)
  obtain raw where raw: "latest_window util lags = Inr raw" "None \<notin> set raw"
    using latest_window_dense[OF dense len] by blast
  have "those (scaler_transform_row sc raw) = Some (map the (scaler_transform_row sc raw))"
    by (rule those_dense[OF transform_row_dense[OF raw(2)]])
  then show ?thesis
    using sc sp raw(1) by (cases sp) (simp add: forecast_def fit_transform_def Let_def)
qed

lemma map_option_dense: "None \<notin> set cs \<Longrightarrow> None \<notin> set (map (map_option f) cs)"
  by (induction cs) auto

lemma util_of_dense:
  assumes "concat result \<noteq> []"
  shows "None \<notin> set (util_of result lres)"
    and "length (util_of result lres) = length (normalize (concat result))"
proof -
  show "None \<notin> set (util_of result lres)"
    unfolding util_of_def utilization_def
    by (rule map_option_dense[OF normalize_cells[OF assms]])
  show "length (util_of result lres) = length (normalize (concat result))"
    by (simp add: util_of_def utilization_def)
qed

lemma dense_rows:
  assumes "None \<notin> set util"
  shows "\<forall>r \<in> set (fst (make_supervised util lags)). length r = lags"
    and "length (fst (make_supervised util lags)) = length util - lags"
proof -
  obtain vs where vs: "util = map Some vs"
    using dense_cells[OF assms] by (rule that)
  show "\<forall>r \<in> set (fst (make_supervised util lags)). length r = lags"
    unfolding vs by (auto simp: make_supervised_dense length_py_range)
  show "length (fst (make_supervised util lags)) = length util - lags"
    unfolding vs by (simp add: make_supervised_dense)
qed

lemma loop_body_data:
  assumes "concat result \<noteq> []"
  shows "loop_body cfg fit (Inr result) (Inr lres) G =
     (let util = util_of result lres;
          X = fst (make_supervised util (nat (LAGS cfg)));
          y = snd (make_supervised util (nat (LAGS cfg)))
      in if length X < 20 then (TooFewSamples (length X), gauge_set G (DEPLOY cfg) 0)
         else (case forecast fit X y util (nat (LAGS cfg)) of
                 Inl e \<Rightarrow> (Failed e, G)
               | Inr tr \<Rightarrow> (Published tr, gauge_set G (DEPLOY cfg) (clamp (yhat tr)))))"
proof -
  have ne: "(concat result = []) = False" using assms by simp
  show ?thesis
    unfolding loop_body_def util_of_def Let_def sum.case ne if_False
    by (simp only: split_beta)
qed

lemma loop_body_range_failed: "loop_body cfg fit (Inl e) jl G = (Failed e, G)"
  by (simp add: loop_body_def)

lemma loop_body_nodata:
  assumes "concat result = []"
  shows "loop_body cfg fit (Inr result) jl G = (NoData, G)"
  unfolding loop_body_def Let_def sum.case assms by (simp only: refl if_True)

lemma loop_body_limit_failed:
  assumes "concat result \<noteq> []"
  shows "loop_body cfg fit (Inr result) (Inl e) G = (Failed e, G)"
proof -
  have ne: "(concat result = []) = False" using assms by simp
  show ?thesis
    unfolding loop_body_def Let_def sum.case ne by (simp only: if_False)
qed

lemma loop_body_PublishedD:
  assumes "loop_body cfg fit jr jl G = (Published tr, G')"
  shows "\<exists>result lres. jr = Inr result \<and> jl = Inr lres \<and> concat result \<noteq> [] \<and>
           20 \<le> length (fst (make_supervised (util_of result lres) (nat (LAGS cfg)))) \<and>
           forecast fit (fst (make_supervised (util_of result lres) (nat (LAGS cfg))))
                        (snd (make_supervised (util_of result lres) (nat (LAGS cfg))))
                        (util_of result lres) (nat (LAGS cfg)) = Inr tr \<and>
           G' = gauge_set G (DEPLOY cfg) (clamp (yhat tr))"
proof (cases jr)
  case (Inl e)
  then show ?thesis using assms by (simp add: loop_body_range_failed)
next
  case jr: (Inr result)
  show ?thesis
  proof (cases "concat result = []")
    case True
    then show ?thesis using assms jr by (simp add: loop_body_nodata)
  next
    case ne: False
    show ?thesis
    proof (cases jl)
      case (Inl e)
      then show ?thesis using assms jr by (simp add: loop_body_limit_failed[OF ne])
    next
      case jl: (Inr lres)
      show ?thesis
        using assms ne unfolding jr jl loop_body_data[OF ne] Let_def
        by (auto split: if_splits sum.splits)
    qed
  qed
qed

lemma loop_body_publishes:
  assumes "concat result \<noteq> []" "0 < LAGS cfg"
    and "20 \<le> length (fst (make_supervised (util_of result lres) (nat (LAGS cfg))))"
  shows "\<exists>tr. loop_body cfg fit (Inr result) (Inr lres) G
                = (Published tr, gauge_set G (DEPLOY cfg) (clamp (yhat tr)))"
proof -
  let ?util = "util_of result lres"
  let ?L = "nat (LAGS cfg)"
  have d: "None \<notin> set ?util" by (rule util_of_dense(1)[OF assms(1)])
  have "length ?util - ?L \<ge> 20" using assms(3) dense_rows(2)[OF d, of ?L] by simp
  then have len: "?L \<le> length ?util" by simp
  have L: "0 < ?L" using assms(2) by simp
  obtain tr where "forecast fit (fst (make_supervised ?util ?L)) (snd (make_supervised ?util ?L)) ?util ?L = Inr tr"
    using forecast_ok[OF assms(3) L dense_rows(1)[OF d] d len] by blast
  then show ?thesis
    using assms(3) by (simp add: loop_body_data[OF assms(1)] Let_def)
qed

lemma clamp_examples: "clamp (- 1) = 0" "clamp (1 / 2) = 1 / 2" "clamp 5 = 2"
  by (simp_all add: clamp_def)

lemma predict_constant: "predict \<lparr> coef = [0], intercept = c \<rparr> row = c"
  by (cases row) (simp_all add: predict_def)

text \<open>A concrete answer: two usage points 100 seconds apart, hence 21 cells and, with one
  lag, 20 rows.\<close>

lemma example_length: "length (normalize [(0, 1), (100, 3)]) = 21"
  by (simp add: length_normalize length_resample_mean sort_values_def bucket_def)

lemma example_rows:
  "length (fst (make_supervised (util_of [[(0, 1), (100, 3)]] lres) (nat (LAGS example_config)))) = 20"
proof -
  have ne: "concat [[(0, 1), (100, 3 :: real)]] \<noteq> []" by simp
  show ?thesis
    using dense_rows(2)[OF util_of_dense(1)[OF ne], of lres 1] util_of_dense(2)[OF ne, of lres]
          example_length
    by (simp add: example_config_def)
qed

lemma example_published:
  "\<exists>tr. loop_body example_config fit (Inr [[(0, 1), (100, 3)]]) (Inr lres) G
           = (Published tr, gauge_set G ''cpu-demo'' (clamp (yhat tr)))"
proof -
  have ne: "concat [[(0, 1), (100, 3 :: real)]] \<noteq> []" by simp
  have L: "0 < LAGS example_config" by (simp add: example_config_def)
  have r: "20 \<le> length (fst (make_supervised (util_of [[(0, 1), (100, 3)]] lres)
                                (nat (LAGS example_config))))"
    by (simp only: example_rows)
  from loop_body_publishes[OF ne L r, of fit G] show ?thesis
    by (simp add: example_config_def)
qed

text \<open>
  Claim C1. Whenever an iteration reaches the prediction step, the raw forecast \<open>v\<close> is the
  prediction of the model fitted in that iteration, and the value written to the gauge
  under the deployment label, and read back from it, is \<open>max(0, min(v, 2))\<close>. In particular
  the raw values \<open>-1\<close>, \<open>0.5\<close> and \<open>5\<close> give \<open>0\<close>, \<open>0.5\<close> and \<open>2\<close>.
\<close>

theorem published_forecast_is_clamped:
  assumes "loop_body cfg fit jr jl G = (Published tr, G')"
  shows "G' = G(DEPLOY cfg \<mapsto> max 0 (min (yhat tr) 2)) \<and>
         metrics G' (DEPLOY cfg) = Some (max 0 (min (yhat tr) 2)) \<and>
         (\<exists>row. those (x_last tr) = Some row \<and>
                yhat tr = predict (fit (Xtr tr) (ytr tr)) row) \<and>
         clamp (- 1) = 0 \<and> clamp (1 / 2) = 1 / 2 \<and> clamp 5 = 2"
proof -
  from loop_body_PublishedD[OF assms] obtain result lres where
    f: "forecast fit (fst (make_supervised (util_of result lres) (nat (LAGS cfg))))
                     (snd (make_supervised (util_of result lres) (nat (LAGS cfg))))
                     (util_of result lres) (nat (LAGS cfg)) = Inr tr"
    and G': "G' = gauge_set G (DEPLOY cfg) (clamp (yhat tr))"
    by blast
  from forecast_InrD(4,7)[OF f]
  have "\<exists>row. those (x_last tr) = Some row \<and> yhat tr = predict (fit (Xtr tr) (ytr tr)) row"
    by simp
  then show ?thesis
    using G' clamp_examples by (simp add: gauge_set_def clamp_def metrics_def)
qed

theorem published_forecast_is_clamped_witness:
  "(\<exists>tr G'. loop_body example_config (constant_fit (- 1)) (Inr [[(0, 1), (100, 3)]]) (Inr [1])
                Map.empty = (Published tr, G') \<and>
             yhat tr = - 1 \<and> metrics G' ''cpu-demo'' = Some 0) \<and>
   (\<exists>tr G'. loop_body example_config (constant_fit (1 / 2)) (Inr [[(0, 1), (100, 3)]]) (Inr [1])
                Map.empty = (Published tr, G') \<and>
             yhat tr = 1 / 2 \<and> metrics G' ''cpu-demo'' = Some (1 / 2)) \<and>
   (\<exists>tr G'. loop_body example_config (constant_fit 5) (Inr [[(0, 1), (100, 3)]]) (Inr [1])
                Map.empty = (Published tr, G') \<and>
             yhat tr = 5 \<and> metrics G' ''cpu-demo'' = Some 2)"
proof -
  have run: "\<exists>tr G'. loop_body example_config (constant_fit c) (Inr [[(0, 1), (100, 3)]]) (Inr [1])
                         Map.empty = (Published tr, G') \<and>
                      yhat tr = c \<and> metrics G' ''cpu-demo'' = Some (max 0 (min c 2))" for c
  proof -
    obtain tr where
      tr: "loop_body example_config (constant_fit c) (Inr [[(0, 1), (100, 3)]]) (Inr [1]) Map.empty
             = (Published tr, gauge_set Map.empty ''cpu-demo'' (clamp (yhat tr)))"
      using example_published[of "constant_fit c" "[1]" Map.empty] by (elim exE)
    from published_forecast_is_clamped[OF tr]
    obtain row where "yhat tr = predict (constant_fit c (Xtr tr) (ytr tr)) row"
      and m: "metrics (gauge_set Map.empty ''cpu-demo'' (clamp (yhat tr))) (DEPLOY example_config)
                = Some (max 0 (min (yhat tr) 2))"
      by blast
    then have y: "yhat tr = c" by (simp add: constant_fit_def predict_constant)
    from m y
    have "metrics (gauge_set Map.empty ''cpu-demo'' (clamp (yhat tr))) ''cpu-demo''
            = Some (max 0 (min c 2))"
      by (simp add: example_config_def)
    with tr y show ?thesis by blast
  qed
  from run[of "- 1"] run[of "1 / 2"] run[of 5] show ?thesis by simp
qed

text \<open>
  Claim C4. When the range query answers with an empty point list, the iteration ends
  without publishing: the gauge is left as it was, every label reads as before, and the
  loop goes on to the next tick with the gauge unchanged.
\<close>

theorem empty_usage_publishes_nothing:
  assumes "concat result = []"
  shows "loop_body cfg fit (Inr result) jl G = (NoData, G) \<and>
         (\<forall>label. metrics (snd (loop_body cfg fit (Inr result) jl G)) label = metrics G label) \<and>
         loop cfg fit ((Inr result, jl) # ticks) G = loop cfg fit ticks G"
  by (simp add: loop_body_nodata[OF assms])

theorem empty_usage_publishes_nothing_witness:
  "concat [[], [] :: point list] = [] \<and>
   loop_body example_config (constant_fit 5) (Inr [[], []]) (Inr [1]) [''cpu-demo'' \<mapsto> 7 / 10]
     = (NoData, [''cpu-demo'' \<mapsto> 7 / 10]) \<and>
   metrics (snd (loop_body example_config (constant_fit 5) (Inr [[], []]) (Inr [1])
                   [''cpu-demo'' \<mapsto> 7 / 10])) ''cpu-demo'' = Some (7 / 10)"
proof -
  have h: "concat [[], [] :: point list] = []" by simp
  from empty_usage_publishes_nothing[OF h, of example_config "constant_fit 5" "Inr [1]"
         "[''cpu-demo'' \<mapsto> 7 / 10]" "[]"] h
  show ?thesis by (simp add: metrics_def)
qed

lemma loop_body_too_few:
  assumes "concat result \<noteq> []"
    and "length (fst (make_supervised (util_of result lres) (nat (LAGS cfg)))) < 20"
  shows "loop_body cfg fit (Inr result) (Inr lres) G
           = (TooFewSamples (length (fst (make_supervised (util_of result lres) (nat (LAGS cfg))))),
              G(DEPLOY cfg \<mapsto> 0))"
  using assms(2) by (simp add: loop_body_data[OF assms(1)] Let_def gauge_set_def)

lemma cpu_limit_positive: "0 < cpu_limit lres"
  by (simp add: cpu_limit_def Let_def split: list.splits)

text \<open>
  Claim C3. When the supervised dataset of an iteration has fewer than 20 rows, the
  iteration takes the degrade path: no model is fitted (there is no fit trace, and the
  result is the same whatever the fitter), and the value published under the deployment
  label is 0, whatever the data. A lag count that is not below the length of the series
  leaves the dataset empty, and the same path is taken.
\<close>

theorem too_few_rows_publish_zero:
  assumes "concat result \<noteq> []"
  shows "(make_supervised (util_of result lres) (nat (LAGS cfg)) = (X, y) \<and> length X < 20 \<longrightarrow>
            loop_body cfg fit (Inr result) (Inr lres) G
              = (TooFewSamples (length X), G(DEPLOY cfg \<mapsto> 0)) \<and>
            published_trace (fst (loop_body cfg fit (Inr result) (Inr lres) G)) = None \<and>
            metrics (snd (loop_body cfg fit (Inr result) (Inr lres) G)) (DEPLOY cfg) = Some 0 \<and>
            loop_body cfg fit' (Inr result) (Inr lres) G
              = loop_body cfg fit (Inr result) (Inr lres) G) \<and>
         (length (normalize (concat result)) \<le> nat (LAGS cfg) \<longrightarrow>
            make_supervised (util_of result lres) (nat (LAGS cfg)) = ([], []) \<and>
            loop_body cfg fit (Inr result) (Inr lres) G
              = (TooFewSamples 0, G(DEPLOY cfg \<mapsto> 0)))"
proof (intro conjI impI)
  assume a: "make_supervised (util_of result lres) (nat (LAGS cfg)) = (X, y) \<and> length X < 20"
  then have lt: "length (fst (make_supervised (util_of result lres) (nat (LAGS cfg)))) < 20"
    and X: "fst (make_supervised (util_of result lres) (nat (LAGS cfg))) = X"
    by simp_all
  show r: "loop_body cfg fit (Inr result) (Inr lres) G
             = (TooFewSamples (length X), G(DEPLOY cfg \<mapsto> 0))"
    using loop_body_too_few[OF assms lt, of fit G] by (simp only: X)
  show "published_trace (fst (loop_body cfg fit (Inr result) (Inr lres) G)) = None"
    by (simp add: r published_trace_def)
  show "metrics (snd (loop_body cfg fit (Inr result) (Inr lres) G)) (DEPLOY cfg) = Some 0"
    by (simp add: r metrics_def)
  show "loop_body cfg fit' (Inr result) (Inr lres) G
          = loop_body cfg fit (Inr result) (Inr lres) G"
    using loop_body_too_few[OF assms lt, of fit' G] loop_body_too_few[OF assms lt, of fit G]
    by simp
next
  assume "length (normalize (concat result)) \<le> nat (LAGS cfg)"
  then have "length (util_of result lres) \<le> nat (LAGS cfg)"
    by (simp add: util_of_dense(2)[OF assms])
  then show e: "make_supervised (util_of result lres) (nat (LAGS cfg)) = ([], [])"
    by (rule make_supervised_short)
  then have "length (fst (make_supervised (util_of result lres) (nat (LAGS cfg)))) < 20"
    by simp
  from loop_body_too_few[OF assms this, of fit G]
  show "loop_body cfg fit (Inr result) (Inr lres) G = (TooFewSamples 0, G(DEPLOY cfg \<mapsto> 0))"
    by (simp add: e)
qed

theorem too_few_rows_publish_zero_witness:
  "concat [[(0, 1), (60, 2 :: real)]] \<noteq> [] \<and>
   length (fst (make_supervised (util_of [[(0, 1), (60, 2)]] [1]) (nat (LAGS example_config)))) = 12 \<and>
   loop_body example_config (constant_fit 5) (Inr [[(0, 1), (60, 2)]]) (Inr [1]) Map.empty
     = (TooFewSamples 12, [''cpu-demo'' \<mapsto> 0]) \<and>
   length (normalize (concat [[(0, 1), (60, 2)]])) \<le> nat (LAGS (example_config\<lparr> LAGS := 60 \<rparr>)) \<and>
   loop_body (example_config\<lparr> LAGS := 60 \<rparr>) (constant_fit 5) (Inr [[(0, 1), (60, 2)]]) (Inr [1])
     Map.empty = (TooFewSamples 0, [''cpu-demo'' \<mapsto> 0])"
proof -
  have ne: "concat [[(0, 1), (60, 2 :: real)]] \<noteq> []" by simp
  have n: "length (fst (make_supervised (util_of [[(0, 1), (60, 2)]] [1])
                          (nat (LAGS example_config)))) = 12"
    by code_simp
  have s: "length (normalize (concat [[(0, 1), (60, 2)]])) \<le> nat (LAGS (example_config\<lparr> LAGS := 60 \<rparr>))"
    by code_simp
  have p: "make_supervised (util_of [[(0, 1), (60, 2)]] [1]) (nat (LAGS example_config))
             = (fst (make_supervised (util_of [[(0, 1), (60, 2)]] [1]) (nat (LAGS example_config))),
                snd (make_supervised (util_of [[(0, 1), (60, 2)]] [1]) (nat (LAGS example_config))))"
    by simp
  from too_few_rows_publish_zero[OF ne, where lres = "[1]" and cfg = example_config
         and X = "fst (make_supervised (util_of [[(0, 1), (60, 2)]] [1]) (nat (LAGS example_config)))"
         and y = "snd (make_supervised (util_of [[(0, 1), (60, 2)]] [1]) (nat (LAGS example_config)))"
         and fit = "constant_fit 5" and G = Map.empty and fit' = "constant_fit 5"] p n
  have a: "loop_body example_config (constant_fit 5) (Inr [[(0, 1), (60, 2)]]) (Inr [1]) Map.empty
             = (TooFewSamples 12, [DEPLOY example_config \<mapsto> 0])"
    by simp
  from too_few_rows_publish_zero[OF ne, where lres = "[1]"
         and cfg = "example_config\<lparr> LAGS := 60 \<rparr>" and X = "[]" and y = "[]"
         and fit = "constant_fit 5" and G = Map.empty and fit' = "constant_fit 5"] s
  have b: "loop_body (example_config\<lparr> LAGS := 60 \<rparr>) (constant_fit 5) (Inr [[(0, 1), (60, 2)]])
             (Inr [1]) Map.empty
             = (TooFewSamples 0, [DEPLOY (example_config\<lparr> LAGS := 60 \<rparr>) \<mapsto> 0])"
    by blast
  from ne n s a b show ?thesis by (simp add: example_config_def)
qed

text \<open>
  Claim C5. When the instant query for the limit answers with nothing, with 0 or with a
  negative value, the divisor of the utilisation series is the fallback 0.1, never the raw
  value: the iteration runs exactly as with a limit of 0.1. It is not aborted: with a
  positive lag count and usage points it ends by publishing, on the degrade path or with
  a fitted model.
\<close>

theorem nonpositive_limit_uses_fallback:
  assumes "lres = [] \<or> hd lres \<le> 0"
  shows "cpu_limit lres = 1 / 10 \<and>
         util_of result lres
           = map (map_option (\<lambda>v. v / (1 / 10))) (map snd (normalize (concat result))) \<and>
         loop_body cfg fit (Inr result) (Inr lres) G
           = loop_body cfg fit (Inr result) (Inr [1 / 10]) G \<and>
         (concat result \<noteq> [] \<and> 0 < LAGS cfg \<longrightarrow>
            (\<exists>n. loop_body cfg fit (Inr result) (Inr lres) G
                    = (TooFewSamples n, G(DEPLOY cfg \<mapsto> 0))) \<or>
            (\<exists>tr. loop_body cfg fit (Inr result) (Inr lres) G
                    = (Published tr, G(DEPLOY cfg \<mapsto> clamp (yhat tr)))))"
proof -
  have lim: "cpu_limit lres = 1 / 10"
    using assms by (cases lres) (simp_all add: cpu_limit_def)
  have lim': "cpu_limit [1 / 10] = 1 / 10" by (simp add: cpu_limit_def)
  have u: "util_of result lres = util_of result [1 / 10]"
    by (simp only: util_of_def lim lim')
  have same: "loop_body cfg fit (Inr result) (Inr lres) G
                = loop_body cfg fit (Inr result) (Inr [1 / 10]) G"
  proof (cases "concat result = []")
    case True
    then show ?thesis by (simp only: loop_body_nodata)
  next
    case False
    then show ?thesis by (simp only: loop_body_data[OF False] u)
  qed
  have go: "(\<exists>n. loop_body cfg fit (Inr result) (Inr lres) G
                    = (TooFewSamples n, G(DEPLOY cfg \<mapsto> 0))) \<or>
            (\<exists>tr. loop_body cfg fit (Inr result) (Inr lres) G
                    = (Published tr, G(DEPLOY cfg \<mapsto> clamp (yhat tr))))"
    if ne: "concat result \<noteq> []" and L: "0 < LAGS cfg"
  proof (cases "length (fst (make_supervised (util_of result lres) (nat (LAGS cfg)))) < 20")
    case True
    from loop_body_too_few[OF ne True] show ?thesis by blast
  next
    case False
    then have "20 \<le> length (fst (make_supervised (util_of result lres) (nat (LAGS cfg))))"
      by simp
    from loop_body_publishes[OF ne L this, of fit G] show ?thesis
      by (simp add: gauge_set_def)
  qed
  have ut: "util_of result lres
              = map (map_option (\<lambda>v. v / (1 / 10))) (map snd (normalize (concat result)))"
    by (simp only: util_of_def utilization_def lim)
  show ?thesis
    using lim ut same go by blast
qed

theorem nonpositive_limit_uses_fallback_witness:
  "([0 :: real] = [] \<or> hd [0 :: real] \<le> 0) \<and> cpu_limit [0] = 1 / 10 \<and>
   ([- 1 :: real] = [] \<or> hd [- 1 :: real] \<le> 0) \<and> cpu_limit [- 1] = 1 / 10 \<and>
   cpu_limit [] = 1 / 10 \<and>
   (\<exists>tr. loop_body example_config (constant_fit 5) (Inr [[(0, 1), (100, 3)]]) (Inr [0]) Map.empty
            = (Published tr, [''cpu-demo'' \<mapsto> clamp (yhat tr)]))"
proof -
  have h0: "[0 :: real] = [] \<or> hd [0 :: real] \<le> 0" by simp
  have h1: "[- 1 :: real] = [] \<or> hd [- 1 :: real] \<le> 0" by simp
  have h2: "([] :: real list) = [] \<or> hd ([] :: real list) \<le> 0" by simp
  have ne: "concat [[(0, 1), (100, 3 :: real)]] \<noteq> []" by simp
  have L: "0 < LAGS example_config" by (simp add: example_config_def)
  from nonpositive_limit_uses_fallback[OF h0, of "[[(0, 1), (100, 3)]]" example_config
         "constant_fit 5" Map.empty] ne L
  have c0: "cpu_limit [0] = 1 / 10"
    and d: "(\<exists>n. loop_body example_config (constant_fit 5) (Inr [[(0, 1), (100, 3)]]) (Inr [0])
                    Map.empty = (TooFewSamples n, [DEPLOY example_config \<mapsto> 0])) \<or>
            (\<exists>tr. loop_body example_config (constant_fit 5) (Inr [[(0, 1), (100, 3)]]) (Inr [0])
                    Map.empty = (Published tr, [DEPLOY example_config \<mapsto> clamp (yhat tr)]))"
    by blast+
  from nonpositive_limit_uses_fallback[OF h1, of "[]" example_config "constant_fit 5" Map.empty]
  have c1: "cpu_limit [- 1] = 1 / 10" by blast
  from nonpositive_limit_uses_fallback[OF h2, of "[]" example_config "constant_fit 5" Map.empty]
  have c2: "cpu_limit [] = 1 / 10" by blast
  obtain tr' where "loop_body example_config (constant_fit 5) (Inr [[(0, 1), (100, 3)]]) (Inr [0])
                      Map.empty = (Published tr', gauge_set Map.empty ''cpu-demo'' (clamp (yhat tr')))"
    using example_published[of "constant_fit 5" "[0]" Map.empty] by (elim exE)
  with d have "\<exists>tr. loop_body example_config (constant_fit 5) (Inr [[(0, 1), (100, 3)]]) (Inr [0])
                    Map.empty = (Published tr, [DEPLOY example_config \<mapsto> clamp (yhat tr)])"
    by auto
  with h0 h1 c0 c1 c2 show ?thesis by (simp add: example_config_def)
qed

lemma length_scaler_transform: "length (scaler_transform sc X) = length X"
  by (simp add: scaler_transform_def)

lemma scaler_transform_take: "take n (scaler_transform sc X) = scaler_transform sc (take n X)"
  by (simp add: scaler_transform_def take_map)

lemma scaler_transform_drop: "drop n (scaler_transform sc X) = scaler_transform sc (drop n X)"
  by (simp add: scaler_transform_def drop_map)

lemma length_make_supervised:
  "length (snd (make_supervised ts lags)) = length (fst (make_supervised ts lags))"
  by (simp add: make_supervised_def Let_def)

text \<open>What a published iteration computed, in terms of its dataset.\<close>

lemma published_facts:
  assumes "loop_body cfg fit (Inr result) (Inr lres) G = (Published tr, G')"
    and "make_supervised (util_of result lres) (nat (LAGS cfg)) = (X, y)"
  shows "scaler_fit X = Inr (scaler tr)"
    and "Xs tr = scaler_transform (scaler tr) X"
    and "train_test_split (Xs tr) y = Inr (Xtr tr, Xte tr, ytr tr, yte tr)"
    and "latest_window (util_of result lres) (nat (LAGS cfg)) = Inr (x_last_raw tr)"
    and "x_last tr = scaler_transform_row (scaler tr) (x_last_raw tr)"
    and "length y = length X" and "20 \<le> length X"
proof -
  from loop_body_PublishedD[OF assms(1)] assms(2)
  have f: "forecast fit X y (util_of result lres) (nat (LAGS cfg)) = Inr tr"
    and n: "20 \<le> length X"
    by auto
  show "scaler_fit X = Inr (scaler tr)" by (rule forecast_InrD(1)[OF f])
  show "Xs tr = scaler_transform (scaler tr) X" by (rule forecast_InrD(2)[OF f])
  show "train_test_split (Xs tr) y = Inr (Xtr tr, Xte tr, ytr tr, yte tr)"
    by (rule forecast_InrD(3)[OF f])
  show "latest_window (util_of result lres) (nat (LAGS cfg)) = Inr (x_last_raw tr)"
    by (rule forecast_InrD(5)[OF f])
  show "x_last tr = scaler_transform_row (scaler tr) (x_last_raw tr)"
    by (rule forecast_InrD(6)[OF f])
  show "length y = length X"
    using length_make_supervised[of "util_of result lres" "nat (LAGS cfg)"] assms(2) by simp
  show "20 \<le> length X" by (rule n)
qed

lemma scaler_fit_InrD:
  "scaler_fit X = Inr sc \<Longrightarrow> scaler_mean sc = column_means X \<and> scaler_scale sc = column_scales X"
  by (auto simp: scaler_fit_def split: if_splits)

lemma counter_rows:
  "length (fst (make_supervised (util_of [[(0, 1), (95, 3), (100, 3)]] [1])
                  (nat (LAGS example_config)))) = 20"
  by code_simp

lemma counter_means:
  "column_means (fst (make_supervised (util_of [[(0, 1), (95, 3), (100, 3)]] [1])
                        (nat (LAGS example_config)))) = [11 / 10]"
  by code_simp

lemma counter_published:
  "\<exists>tr. loop_body example_config fit (Inr [[(0, 1), (95, 3), (100, 3)]]) (Inr [1]) G
           = (Published tr, gauge_set G ''cpu-demo'' (clamp (yhat tr)))"
proof -
  have ne: "concat [[(0, 1), (95, 3), (100, 3 :: real)]] \<noteq> []" by simp
  have L: "0 < LAGS example_config" by (simp add: example_config_def)
  have r: "20 \<le> length (fst (make_supervised (util_of [[(0, 1), (95, 3), (100, 3)]] [1])
                                (nat (LAGS example_config))))"
    by (simp only: counter_rows)
  from loop_body_publishes[OF ne L r, of fit G] show ?thesis
    by (simp add: example_config_def)
qed

text \<open>
  Claim C9. In an iteration that fits a model the rows of the dataset are split in row
  order, without shuffling: the training partition is the first \<open>n - ceil(n / 5)\<close> rows and
  the test partition the remaining \<open>ceil(n / 5)\<close> rows, for the features and for the targets
  alike. That is the first 80 percent and the last 20 percent of the rows, exactly when
  \<open>n\<close> is a multiple of 5 and up to rounding otherwise.
\<close>

theorem ordered_split:
  assumes "loop_body cfg fit (Inr result) (Inr lres) G = (Published tr, G')"
    and "make_supervised (util_of result lres) (nat (LAGS cfg)) = (X, y)"
  shows "Xtr tr = scaler_transform (scaler tr) (take (length X - (length X + 4) div 5) X) \<and>
         Xte tr = scaler_transform (scaler tr) (drop (length X - (length X + 4) div 5) X) \<and>
         ytr tr = take (length X - (length X + 4) div 5) y \<and>
         yte tr = drop (length X - (length X + 4) div 5) y \<and>
         Xtr tr @ Xte tr = Xs tr \<and> ytr tr @ yte tr = y \<and>
         length (Xte tr) = (length X + 4) div 5 \<and>
         5 * length (Xtr tr) \<le> 4 * length X \<and> 4 * length X < 5 * length (Xtr tr) + 5 \<and>
         (5 dvd length X \<longrightarrow> 5 * length (Xtr tr) = 4 * length X \<and> 5 * length (Xte tr) = length X)"
proof -
  note p = published_facts[OF assms]
  let ?n = "length X"
  have len: "length y = length (Xs tr)" "length (Xs tr) = ?n"
    by (simp_all add: p(2) p(6) length_scaler_transform)
  note sp = train_test_split_InrD[OF p(3) len(1)]
  have k: "length (Xs tr) - n_test_of (length (Xs tr)) = ?n - (?n + 4) div 5"
    by (simp only: len(2) n_test_of_eq)
  have xtr: "Xtr tr = scaler_transform (scaler tr) (take (?n - (?n + 4) div 5) X)"
    using sp(1) by (simp add: p(2) scaler_transform_take length_scaler_transform n_test_of_eq)
  have xte: "Xte tr = scaler_transform (scaler tr) (drop (?n - (?n + 4) div 5) X)"
    using sp(2) by (simp add: p(2) scaler_transform_drop length_scaler_transform n_test_of_eq)
  have ytr: "ytr tr = take (?n - (?n + 4) div 5) y" using sp(3) by (simp only: k)
  have yte: "yte tr = drop (?n - (?n + 4) div 5) y" using sp(4) by (simp only: k)
  have app: "Xtr tr @ Xte tr = Xs tr" "ytr tr @ yte tr = y"
    by (simp_all add: sp(1,2,3,4))
  have ltr: "length (Xtr tr) = ?n - n_test_of ?n"
    using split_sizes(1)[of ?n] by (simp add: xtr length_scaler_transform n_test_of_eq)
  have lte: "length (Xte tr) = n_test_of ?n"
    using split_sizes(1)[of ?n] by (simp add: xte length_scaler_transform n_test_of_eq)
  have ex: "5 dvd ?n \<longrightarrow> 5 * length (Xtr tr) = 4 * ?n \<and> 5 * length (Xte tr) = ?n"
    using split_sizes_exact[of ?n] by (simp only: ltr lte) blast
  have b1: "5 * length (Xtr tr) \<le> 4 * ?n"
    using split_sizes(2)[of ?n] by (simp only: ltr)
  have b2: "4 * ?n < 5 * length (Xtr tr) + 5"
    using split_sizes(3)[of ?n] by (simp only: ltr)
  have lte': "length (Xte tr) = (?n + 4) div 5" by (simp only: lte n_test_of_eq)
  from xtr xte ytr yte app lte' b1 b2 ex show ?thesis by blast
qed

theorem ordered_split_witness:
  "\<exists>tr G' X y.
     loop_body example_config (constant_fit 5) (Inr [[(0, 1), (100, 3)]]) (Inr [1]) Map.empty
       = (Published tr, G') \<and>
     make_supervised (util_of [[(0, 1), (100, 3)]] [1]) (nat (LAGS example_config)) = (X, y) \<and>
     length X = 20 \<and> length (Xtr tr) = 16 \<and> length (Xte tr) = 4 \<and>
     ytr tr = take 16 y \<and> yte tr = drop 16 y"
proof -
  let ?ms = "make_supervised (util_of [[(0, 1), (100, 3)]] [1]) (nat (LAGS example_config))"
  obtain tr where
    tr: "loop_body example_config (constant_fit 5) (Inr [[(0, 1), (100, 3)]]) (Inr [1]) Map.empty
           = (Published tr, gauge_set Map.empty ''cpu-demo'' (clamp (yhat tr)))"
    using example_published[of "constant_fit 5" "[1]" Map.empty] by (elim exE)
  have ms: "?ms = (fst ?ms, snd ?ms)" by simp
  have n: "length (fst ?ms) = 20" by (rule example_rows)
  have ar: "((20 :: nat) + 4) div 5 = 4" "(20 :: nat) - 4 = 16" by simp_all
  note os = ordered_split[OF tr ms, unfolded n ar]
  from os have y1: "ytr tr = take 16 (snd ?ms)" by blast
  from os have y2: "yte tr = drop 16 (snd ?ms)" by blast
  from os have l2: "length (Xte tr) = 4" by blast
  from os have "5 * length (Xtr tr) \<le> 4 * 20" "4 * 20 < 5 * length (Xtr tr) + 5" by blast+
  then have l1: "length (Xtr tr) = 16" by arith
  from l1 l2 y1 y2
  have "length (Xtr tr) = 16 \<and> length (Xte tr) = 4 \<and>
        ytr tr = take 16 (snd ?ms) \<and> yte tr = drop 16 (snd ?ms)"
    by blast
  with tr ms n show ?thesis by blast
qed

text \<open>
  Claim C6, as stated: the mean and the standard deviation of the scaler come from the
  training rows only. They do not. In the run below the 20 feature rows are nineteen times
  1 and once 3; the scaler of the iteration has the mean 1.1 of all of them, where the 16
  training rows alone have the mean 1.
\<close>

theorem scaler_train_only_counterexample:
  "map_option (\<lambda>tr. scaler_mean (scaler tr))
     (published_trace (fst (loop_body example_config (constant_fit 0)
                              (Inr [[(0, 1), (95, 3), (100, 3)]]) (Inr [1]) Map.empty)))
     = Some [11 / 10] \<and>
   column_means (training_rows (fst (make_supervised (util_of [[(0, 1), (95, 3), (100, 3)]] [1]) 1)))
     = [1]"
proof -
  let ?ms = "make_supervised (util_of [[(0, 1), (95, 3), (100, 3)]] [1]) (nat (LAGS example_config))"
  obtain tr where
    tr: "loop_body example_config (constant_fit 0) (Inr [[(0, 1), (95, 3), (100, 3)]]) (Inr [1])
           Map.empty = (Published tr, gauge_set Map.empty ''cpu-demo'' (clamp (yhat tr)))"
    using counter_published[of "constant_fit 0" Map.empty] by (elim exE)
  have ms: "?ms = (fst ?ms, snd ?ms)" by simp
  have "scaler_mean (scaler tr) = column_means (fst ?ms)"
    using scaler_fit_InrD[OF published_facts(1)[OF tr ms]] by simp
  then have a: "scaler_mean (scaler tr) = [11 / 10]" by (simp only: counter_means)
  have b: "column_means (training_rows (fst (make_supervised
             (util_of [[(0, 1), (95, 3), (100, 3)]] [1]) 1))) = [1]"
    by code_simp
  have c: "map_option (\<lambda>tr. scaler_mean (scaler tr))
             (published_trace (fst (loop_body example_config (constant_fit 0)
                (Inr [[(0, 1), (95, 3), (100, 3)]]) (Inr [1]) Map.empty))) = Some [11 / 10]"
    by (simp add: tr published_trace_def a)
  from c b show ?thesis by (rule conjI)
qed

text \<open>
  Claim C6, amended. In an iteration that fits a model the scaler is fitted once, before
  the split: its per-feature mean and standard deviation are those of all rows of the
  feature matrix, training and test rows together. That same scaler transforms the rows
  of both partitions and the latest-window prediction input.
\<close>

theorem scaler_fitted_on_all_rows:
  assumes "loop_body cfg fit (Inr result) (Inr lres) G = (Published tr, G')"
    and "make_supervised (util_of result lres) (nat (LAGS cfg)) = (X, y)"
  shows "scaler_fit X = Inr (scaler tr) \<and>
         scaler_mean (scaler tr) = column_means X \<and>
         scaler_scale (scaler tr) = column_scales X \<and>
         Xs tr = scaler_transform (scaler tr) X \<and>
         Xtr tr = scaler_transform (scaler tr) (training_rows X) \<and>
         Xte tr = scaler_transform (scaler tr) (drop (length (training_rows X)) X) \<and>
         x_last tr = scaler_transform_row (scaler tr) (x_last_raw tr)"
proof -
  note p = published_facts[OF assms]
  have len: "length y = length (Xs tr)"
    by (simp add: p(2) p(6) length_scaler_transform)
  note sp = train_test_split_InrD[OF p(3) len]
  have xtr: "Xtr tr = scaler_transform (scaler tr) (training_rows X)"
    using sp(1) by (simp add: p(2) scaler_transform_take length_scaler_transform training_rows_def)
  have "length (training_rows X) = length X - n_test_of (length X)"
    by (simp add: training_rows_def)
  then have xte: "Xte tr = scaler_transform (scaler tr) (drop (length (training_rows X)) X)"
    using sp(2) by (simp add: p(2) scaler_transform_drop length_scaler_transform)
  from p(1) scaler_fit_InrD[OF p(1)] p(2) xtr xte p(5) show ?thesis by blast
qed

theorem scaler_fitted_on_all_rows_witness:
  "\<exists>tr G' X y.
     loop_body example_config (constant_fit 0) (Inr [[(0, 1), (95, 3), (100, 3)]]) (Inr [1])
       Map.empty = (Published tr, G') \<and>
     make_supervised (util_of [[(0, 1), (95, 3), (100, 3)]] [1]) (nat (LAGS example_config))
       = (X, y) \<and>
     column_means X = [11 / 10] \<and> scaler_mean (scaler tr) = [11 / 10]"
proof -
  let ?ms = "make_supervised (util_of [[(0, 1), (95, 3), (100, 3)]] [1]) (nat (LAGS example_config))"
  obtain tr where
    tr: "loop_body example_config (constant_fit 0) (Inr [[(0, 1), (95, 3), (100, 3)]]) (Inr [1])
           Map.empty = (Published tr, gauge_set Map.empty ''cpu-demo'' (clamp (yhat tr)))"
    using counter_published[of "constant_fit 0" Map.empty] by (elim exE)
  have ms: "?ms = (fst ?ms, snd ?ms)" by simp
  from scaler_fitted_on_all_rows[OF tr ms]
  have "scaler_mean (scaler tr) = column_means (fst ?ms)" by blast
  then have "column_means (fst ?ms) = [11 / 10] \<and> scaler_mean (scaler tr) = [11 / 10]"
    by (simp only: counter_means simp_thms)
  with tr ms show ?thesis by blast
qed

end
